theory Spec2Isabelle
  imports Complex_Main "HOL-Library.Char_ord" "HOL-Library.List_Lexorder"
begin

section \<open>Sales analysis: the tables of \<open>analise_avancada.py\<close>\<close>

text \<open>
  The script keeps two pandas tables: \<open>self.df\<close>, the file as \<open>read_csv\<close> returns it, and
  \<open>self.df_processado\<close>, the cleaned table with the derived columns. A table is the list of
  its rows in row order. Numbers are real numbers: the rounding of binary floating point is
  not part of the model, the special values (NaN, the infinities) are, wherever the code can
  produce them. A missing cell (NaN) of the file is \<open>None\<close>. A date is the number of days
  since 1970-01-01 of the calendar day it denotes; the file's date strings are identified
  with that day, so \<open>pd.to_datetime\<close> is the passage from the cell to its day.
\<close>

record linha =
  l_date :: "int option"
  l_product :: "string option"
  l_region :: "string option"
  l_price :: "real option"
  l_quantity :: "int option"

datatype categoria_preco = Baixo | Medio | Alto | Premium

datatype categoria_pedido = Pequeno | Medio_pedido | Grande | Muito_Grande

record venda =
  date :: int
  product :: string
  region :: string
  price :: real
  quantity :: int
  revenue :: real
  revenue_ma7 :: real
  day_of_week :: string
  month :: string
  week_number :: int
  price_category :: "categoria_preco option"
  order_value_category :: "categoria_pedido option"
  margin_percent :: real
  cost :: real
  profit :: real

subsection \<open>Calendar attributes of a day number\<close>

text \<open>
  \<open>dt.day_name()\<close>, \<open>dt.month_name()\<close> and \<open>dt.isocalendar().week\<close> in the proleptic
  Gregorian calendar. Day 0 (1970-01-01) is a Thursday.
\<close>

definition days_from_civil :: "int \<Rightarrow> int \<Rightarrow> int \<Rightarrow> int" where
  "days_from_civil y m d =
     (let y' = (if m \<le> 2 then y - 1 else y);
          era = y' div 400;
          yoe = y' - era * 400;
          doy = (153 * (if m > 2 then m - 3 else m + 9) + 2) div 5 + d - 1;
          doe = yoe * 365 + yoe div 4 - yoe div 100 + doy
      in era * 146097 + doe - 719468)"

definition civil_from_days :: "int \<Rightarrow> int \<times> int \<times> int" where
  "civil_from_days z =
     (let z' = z + 719468;
          era = z' div 146097;
          doe = z' - era * 146097;
          yoe = (doe - doe div 1460 + doe div 36524 - doe div 146096) div 365;
          y = yoe + era * 400;
          doy = doe - (365 * yoe + yoe div 4 - yoe div 100);
          mp = (5 * doy + 2) div 153;
          d = doy - (153 * mp + 2) div 5 + 1;
          m = (if mp < 10 then mp + 3 else mp - 9)
      in (if m \<le> 2 then y + 1 else y, m, d))"

definition weekday :: "int \<Rightarrow> nat" where
  \<comment> \<open>Monday is 0, Sunday is 6.\<close>
  "weekday z = nat ((z + 3) mod 7)"

definition dias_ordem :: "string list" where
  "dias_ordem = [''Monday'', ''Tuesday'', ''Wednesday'', ''Thursday'', ''Friday'',
     ''Saturday'', ''Sunday'']"

definition day_name :: "int \<Rightarrow> string" where
  "day_name z = dias_ordem ! weekday z"

definition meses :: "string list" where
  "meses = [''January'', ''February'', ''March'', ''April'', ''May'', ''June'', ''July'',
     ''August'', ''September'', ''October'', ''November'', ''December'']"

definition month_name :: "int \<Rightarrow> string" where
  "month_name z = (case civil_from_days z of (y, m, d) \<Rightarrow> meses ! nat (m - 1))"

definition isocalendar_week :: "int \<Rightarrow> int" where
  \<comment> \<open>The ISO week is the week of the year that holds this week's Thursday.\<close>
  "isocalendar_week z =
     (let thursday = z - int (weekday z) + 3
      in case civil_from_days thursday of
           (y, m, d) \<Rightarrow> (thursday - days_from_civil y 1 1) div 7 + 1)"

subsection \<open>Series helpers\<close>

definition mean :: "real list \<Rightarrow> real" where
  \<comment> \<open>The mean of a series without NaN; every caller passes a non-empty one.\<close>
  "mean xs = sum_list xs / real (length xs)"

definition rolling_mean :: "nat \<Rightarrow> real list \<Rightarrow> real list" where
  \<comment> \<open>\<open>x.rolling(window=w, min_periods=1).mean()\<close>: position \<open>j\<close> averages the window
      that ends at \<open>j\<close> and starts at \<open>max 0 (j + 1 - w)\<close>.\<close>
  "rolling_mean w xs =
     map (\<lambda>j. mean (drop (if w \<le> j + 1 then j + 1 - w else 0) (take (j + 1) xs)))
       [0..<length xs]"

definition cut_price :: "real \<Rightarrow> categoria_preco option" where
  \<comment> \<open>\<open>pd.cut(price, bins=[0, 50, 100, 150, 200], labels=[...])\<close>, intervals \<open>(lo, hi]\<close>.\<close>
  "cut_price p =
     (if 0 < p \<and> p \<le> 50 then Some Baixo
      else if 50 < p \<and> p \<le> 100 then Some Medio
      else if 100 < p \<and> p \<le> 150 then Some Alto
      else if 150 < p \<and> p \<le> 200 then Some Premium
      else None)"

definition cut_revenue :: "real \<Rightarrow> categoria_pedido option" where
  \<comment> \<open>\<open>pd.cut(revenue, bins=[0, 100, 500, 1000, inf], labels=[...])\<close>.\<close>
  "cut_revenue v =
     (if 0 < v \<and> v \<le> 100 then Some Pequeno
      else if 100 < v \<and> v \<le> 500 then Some Medio_pedido
      else if 500 < v \<and> v \<le> 1000 then Some Grande
      else if 1000 < v then Some Muito_Grande
      else None)"

subsection \<open>\<open>preparar_dados\<close>\<close>

fun drop_duplicates_from :: "'a list \<Rightarrow> 'a list \<Rightarrow> 'a list" where
  "drop_duplicates_from seen [] = []"
| "drop_duplicates_from seen (x # xs) =
     (if x \<in> set seen then drop_duplicates_from seen xs
      else x # drop_duplicates_from (x # seen) xs)"

definition drop_duplicates :: "'a list \<Rightarrow> 'a list" where
  \<comment> \<open>Keeps the first occurrence of every row.\<close>
  "drop_duplicates xs = drop_duplicates_from [] xs"

definition completa :: "linha \<Rightarrow> bool" where
  "completa l \<longleftrightarrow> l_date l \<noteq> None \<and> l_product l \<noteq> None \<and> l_region l \<noteq> None
     \<and> l_price l \<noteq> None \<and> l_quantity l \<noteq> None"

definition dropna :: "linha list \<Rightarrow> linha list" where
  "dropna ls = filter completa ls"

record base =
  b_date :: int
  b_product :: string
  b_region :: string
  b_price :: real
  b_quantity :: int

fun to_base :: "linha \<Rightarrow> base list" where
  \<comment> \<open>The five cells of a complete row; \<open>dropna\<close> leaves no other row.\<close>
  "to_base l =
     (case (l_date l, l_product l, l_region l, l_price l, l_quantity l) of
        (Some d, Some p, Some r, Some pr, Some q) \<Rightarrow>
          [\<lparr>b_date = d, b_product = p, b_region = r, b_price = pr, b_quantity = q\<rparr>]
      | _ \<Rightarrow> [])"

definition grupo_de :: "base list \<Rightarrow> nat \<Rightarrow> nat list" where
  \<comment> \<open>The positions of the rows that \<open>groupby('product')\<close> puts in the group of row \<open>i\<close>.\<close>
  "grupo_de bs i = filter (\<lambda>j. b_product (bs ! j) = b_product (bs ! i)) [0..<length bs]"

definition transform_ma7 :: "base list \<Rightarrow> nat \<Rightarrow> real" where
  \<comment> \<open>\<open>groupby('product')['revenue'].transform(rolling mean)\<close> at row \<open>i\<close>: the rolling mean of
      the group's revenues in row order, read at the place of row \<open>i\<close> in its group.\<close>
  "transform_ma7 bs i =
     (let g = grupo_de bs i;
          serie = map (\<lambda>j. b_price (bs ! j) * real_of_int (b_quantity (bs ! j))) g
      in rolling_mean 7 serie ! length (filter (\<lambda>j. j < i) g))"

definition enriquecer :: "(nat \<Rightarrow> real) \<Rightarrow> base list \<Rightarrow> nat \<Rightarrow> venda" where
  "enriquecer uniform bs i =
     (let b = bs ! i;
          rev = b_price b * real_of_int (b_quantity b);
          mp = uniform i;
          c = b_price b * (1 - mp / 100)
      in \<lparr>date = b_date b, product = b_product b, region = b_region b, price = b_price b,
          quantity = b_quantity b, revenue = rev, revenue_ma7 = transform_ma7 bs i,
          day_of_week = day_name (b_date b), month = month_name (b_date b),
          week_number = isocalendar_week (b_date b),
          price_category = cut_price (b_price b), order_value_category = cut_revenue rev,
          margin_percent = mp, cost = c,
          profit = rev - c * real_of_int (b_quantity b)\<rparr>)"

definition preparar_dados :: "(nat \<Rightarrow> real) \<Rightarrow> linha list \<Rightarrow> venda list" where
  \<comment> \<open>\<open>uniform i\<close> is draw \<open>i\<close> of \<open>np.random.uniform(20, 60, n)\<close> after \<open>np.random.seed(42)\<close>.\<close>
  "preparar_dados uniform df =
     (let bs = concat (map to_base (dropna (drop_duplicates df)))
      in map (enriquecer uniform bs) [0..<length bs])"

subsection \<open>Grouping and cross-tabulation\<close>

text \<open>
  A Categorical column keeps its categories in their declared order; the position of a
  category in that order is its code, and codes order the categories.
\<close>

fun codigo_preco :: "categoria_preco \<Rightarrow> nat" where
  "codigo_preco Baixo = 0"
| "codigo_preco Medio = 1"
| "codigo_preco Alto = 2"
| "codigo_preco Premium = 3"

instantiation categoria_preco :: linorder
begin

definition less_eq_categoria_preco :: "categoria_preco \<Rightarrow> categoria_preco \<Rightarrow> bool" where
  "less_eq_categoria_preco a b \<longleftrightarrow> codigo_preco a \<le> codigo_preco b"

definition less_categoria_preco :: "categoria_preco \<Rightarrow> categoria_preco \<Rightarrow> bool" where
  "less_categoria_preco a b \<longleftrightarrow> codigo_preco a < codigo_preco b"

instance
proof
  fix x y :: categoria_preco
  show "x \<le> y \<Longrightarrow> y \<le> x \<Longrightarrow> x = y"
    by (cases x; cases y) (simp_all add: less_eq_categoria_preco_def)
qed (auto simp: less_eq_categoria_preco_def less_categoria_preco_def)

end

definition groupby :: "('v \<Rightarrow> 'k::linorder option) \<Rightarrow> 'v list \<Rightarrow> ('k \<times> 'v list) list" where
  \<comment> \<open>\<open>groupby(key)\<close> with its defaults \<open>sort=True, dropna=True\<close>: one group per key value
      in ascending order, rows of a group in table order, rows without key in no group.\<close>
  "groupby key t =
     map (\<lambda>k. (k, filter (\<lambda>v. key v = Some k) t)) (sort (remdups (List.map_filter key t)))"

datatype ('v, 'k) dimensao =
  Coluna "'v \<Rightarrow> 'k option"
| Categorica "'v \<Rightarrow> 'k option" "'k list"

fun chave :: "('v, 'k) dimensao \<Rightarrow> 'v \<Rightarrow> 'k option" where
  "chave (Coluna f) = f"
| "chave (Categorica f cs) = f"

fun categorica :: "('v, 'k) dimensao \<Rightarrow> bool" where
  "categorica (Coluna f) = False"
| "categorica (Categorica f cs) = True"

fun niveis :: "('v, 'k::linorder) dimensao \<Rightarrow> 'v list \<Rightarrow> 'k list" where
  \<comment> \<open>The level a grouping key offers when unobserved groups are kept: every category of
      a Categorical, the sorted values of any other column.\<close>
  "niveis (Coluna f) t = sort (remdups (List.map_filter f t))"
| "niveis (Categorica f cs) t = cs"

record ('r, 'c) pivot =
  index :: "'r list"
  columns :: "'c list"
  valores :: "real list list"

definition pivot_table ::
  "bool \<Rightarrow> ('v \<Rightarrow> real) \<Rightarrow> ('v, 'r::linorder) dimensao \<Rightarrow> ('v, 'c::linorder) dimensao \<Rightarrow>
   'v list \<Rightarrow> ('r, 'c) pivot" where
  \<comment> \<open>\<open>pd.pivot_table(t, values, index, columns, aggfunc='sum', fill_value=0)\<close>. The rows
      are grouped by both keys, a row with a missing key being in no group; the groups'
      sums are unstacked into a table and the holes filled with 0. \<open>observed\<close> is the
      default of the installed pandas for the parameter of that name: when it is off and a
      key is Categorical, the labels are the full levels of both keys.\<close>
  "pivot_table observed values idx cols t =
     (let usados = filter (\<lambda>v. chave idx v \<noteq> None \<and> chave cols v \<noteq> None) t;
          cheio = (\<not> observed \<and> (categorica idx \<or> categorica cols));
          rs = (if cheio then niveis idx t
                else sort (remdups (List.map_filter (chave idx) usados)));
          cs = (if cheio then niveis cols t
                else sort (remdups (List.map_filter (chave cols) usados)))
      in \<lparr>index = rs, columns = cs,
          valores = map (\<lambda>r. map (\<lambda>c. sum_list (map values
              (filter (\<lambda>v. chave idx v = Some r \<and> chave cols v = Some c) t))) cs) rs\<rparr>)"

fun posicao :: "'a \<Rightarrow> 'a list \<Rightarrow> nat option" where
  "posicao x [] = None"
| "posicao x (y # ys) = (if x = y then Some 0 else map_option Suc (posicao x ys))"

definition celula :: "('r, 'c) pivot \<Rightarrow> 'r \<Rightarrow> 'c \<Rightarrow> real option" where
  \<comment> \<open>The cell at a row label and a column label; \<open>None\<close> when a label is not in the table.\<close>
  "celula P r c =
     (case (posicao r (index P), posicao c (columns P)) of
        (Some i, Some j) \<Rightarrow> Some (valores P ! i ! j)
      | _ \<Rightarrow> None)"

definition soma_celulas :: "('r, 'c) pivot \<Rightarrow> real" where
  "soma_celulas P = sum_list (concat (valores P))"

definition dim_product :: "(venda, string) dimensao" where
  "dim_product = Coluna (\<lambda>v. Some (product v))"

definition dim_region :: "(venda, string) dimensao" where
  "dim_region = Coluna (\<lambda>v. Some (region v))"

definition dim_price_category :: "(venda, categoria_preco) dimensao" where
  "dim_price_category = Categorica price_category [Baixo, Medio, Alto, Premium]"

definition pivot_produto_regiao :: "bool \<Rightarrow> venda list \<Rightarrow> (string, string) pivot" where
  "pivot_produto_regiao observed t = pivot_table observed revenue dim_product dim_region t"

definition pivot_regiao_categoria :: "bool \<Rightarrow> venda list \<Rightarrow> (string, categoria_preco) pivot" where
  "pivot_regiao_categoria observed t =
     pivot_table observed revenue dim_region dim_price_category t"

definition analise_cruzada ::
  "bool \<Rightarrow> venda list \<Rightarrow> (string, string) pivot \<times> (string, categoria_preco) pivot" where
  "analise_cruzada observed t = (pivot_produto_regiao observed t, pivot_regiao_categoria observed t)"

definition bem_formada :: "('v, 'k) dimensao \<Rightarrow> bool" where
  \<comment> \<open>A Categorical lists each category once and holds no value outside its categories.\<close>
  "bem_formada d \<longleftrightarrow>
     (case d of Coluna f \<Rightarrow> True
      | Categorica f cs \<Rightarrow> distinct cs \<and> (\<forall>v k. f v = Some k \<longrightarrow> k \<in> set cs))"

subsection \<open>Floating-point values with infinities and NaN\<close>

text \<open>
  Where the code divides, a float can be infinite or NaN. Finite values are reals; the
  operations below are the IEEE ones on the special values.
\<close>

datatype valor = Num real | Inf_pos | Inf_neg | NaN

definition dividir :: "real \<Rightarrow> real \<Rightarrow> valor" where
  \<comment> \<open>\<open>x / y\<close> for finite \<open>x\<close> and \<open>y\<close>.\<close>
  "dividir x y =
     (if y \<noteq> 0 then Num (x / y)
      else if 0 < x then Inf_pos else if x < 0 then Inf_neg else NaN)"

fun somar :: "valor \<Rightarrow> valor \<Rightarrow> valor" where
  "somar (Num a) (Num b) = Num (a + b)"
| "somar NaN v = NaN"
| "somar v NaN = NaN"
| "somar Inf_pos Inf_neg = NaN"
| "somar Inf_neg Inf_pos = NaN"
| "somar Inf_pos v = Inf_pos"
| "somar v Inf_pos = Inf_pos"
| "somar Inf_neg v = Inf_neg"
| "somar v Inf_neg = Inf_neg"

fun afim :: "(real \<Rightarrow> real) \<Rightarrow> valor \<Rightarrow> valor" where
  \<comment> \<open>An increasing map of finite values (\<open>x - 1\<close>, \<open>x / n\<close> for a count \<open>n\<close>, \<open>x * 100\<close>):
      the special values pass through.\<close>
  "afim f (Num a) = Num (f a)"
| "afim f v = v"

definition pct_change :: "real list \<Rightarrow> valor list" where
  \<comment> \<open>\<open>s.pct_change()\<close> on a series without NaN: \<open>s / s.shift(1) - 1\<close>; the first entry
      has no predecessor and is NaN.\<close>
  "pct_change xs =
     (case xs of [] \<Rightarrow> []
      | x # rest \<Rightarrow> NaN # map (\<lambda>(ant, atual). afim (\<lambda>q. q - 1) (dividir atual ant))
                              (zip xs rest))"

definition mean_skipna :: "valor list \<Rightarrow> valor" where
  \<comment> \<open>\<open>s.mean()\<close>: NaN entries are skipped, the others summed and divided by their count;
      NaN when none is left.\<close>
  "mean_skipna vs =
     (let validos = filter (\<lambda>v. v \<noteq> NaN) vs
      in if validos = [] then NaN
         else afim (\<lambda>s. s / real (length validos)) (foldr somar validos (Num 0)))"

definition crescimento :: "real list \<Rightarrow> valor" where
  \<comment> \<open>\<open>s.pct_change().mean() * 100\<close>.\<close>
  "crescimento xs = afim (\<lambda>m. m * 100) (mean_skipna (pct_change xs))"

subsection \<open>\<open>analise_temporal\<close>\<close>

datatype erro = ValueError | IndexError

datatype insight =
  Produto_mais_rentavel string real
| Produto_menos_rentavel string real
| Regiao_lider string real
| Melhor_dia string
| Vendas_atipicas nat

record diario =
  dia :: int
  d_revenue :: real
  d_quantity :: int
  d_profit :: real

definition agg_por_data :: "venda list \<Rightarrow> diario list" where
  \<comment> \<open>\<open>groupby('date').agg({'revenue': 'sum', 'quantity': 'sum', 'profit': 'sum'})\<close>.\<close>
  "agg_por_data t =
     map (\<lambda>(d, g). \<lparr>dia = d, d_revenue = sum_list (map revenue g),
                     d_quantity = sum_list (map quantity g),
                     d_profit = sum_list (map profit g)\<rparr>)
       (groupby (\<lambda>v. Some (date v)) t)"

definition resample_D :: "diario list \<Rightarrow> diario list" where
  \<comment> \<open>\<open>.resample('D').sum()\<close>: one bin per day from the first index entry to the last,
      each the sum of the entries of that day; an empty bin sums to 0.\<close>
  "resample_D rows =
     (case rows of [] \<Rightarrow> []
      | r # _ \<Rightarrow>
          map (\<lambda>d. let bin = filter (\<lambda>x. dia x = d) rows
                   in \<lparr>dia = d, d_revenue = sum_list (map d_revenue bin),
                       d_quantity = sum_list (map d_quantity bin),
                       d_profit = sum_list (map d_profit bin)\<rparr>)
            [dia r..dia (last rows)])"

definition date_range :: "int \<Rightarrow> int \<Rightarrow> int list" where
  "date_range inicio fim = [inicio..fim]"

definition reindex_dias :: "int list \<Rightarrow> diario list \<Rightarrow> diario list" where
  \<comment> \<open>\<open>.reindex(date_range, fill_value=0)\<close>.\<close>
  "reindex_dias idx rows =
     map (\<lambda>d. case find (\<lambda>x. dia x = d) rows of
                Some x \<Rightarrow> x
              | None \<Rightarrow> \<lparr>dia = d, d_revenue = 0, d_quantity = 0, d_profit = 0\<rparr>) idx"

fun minimo :: "int list \<Rightarrow> int option" where
  \<comment> \<open>\<open>s.min()\<close>; NaT on an empty column.\<close>
  "minimo [] = None"
| "minimo (x # xs) = Some (fold min xs x)"

fun maximo :: "int list \<Rightarrow> int option" where
  "maximo [] = None"
| "maximo (x # xs) = Some (fold max xs x)"

definition vendas_diarias :: "venda list \<Rightarrow> erro + diario list" where
  \<comment> \<open>\<open>pd.date_range\<close> raises ValueError when an end point is NaT.\<close>
  "vendas_diarias t =
     (let por_dia = resample_D (agg_por_data t)
      in case (minimo (map date t), maximo (map date t)) of
           (Some inicio, Some fim) \<Rightarrow> Inr (reindex_dias (date_range inicio fim) por_dia)
         | _ \<Rightarrow> Inl ValueError)"

definition crescimento_diario :: "diario list \<Rightarrow> valor" where
  "crescimento_diario vd = crescimento (map d_revenue vd)"

definition rint :: "real \<Rightarrow> int" where
  \<comment> \<open>Rounding to the nearest integer, a tie going to the even one.\<close>
  "rint x =
     (let f = \<lfloor>x\<rfloor>; d = x - of_int f
      in if d < 1 / 2 then f else if 1 / 2 < d then f + 1 else if even f then f else f + 1)"

definition round2 :: "real \<Rightarrow> real" where
  \<comment> \<open>\<open>.round(2)\<close>.\<close>
  "round2 x = of_int (rint (x * 100)) / 100"

record resumo_dia =
  s_faturamento_total :: real
  s_faturamento_medio :: real
  s_num_vendas :: nat

definition vendas_dia_semana :: "venda list \<Rightarrow> (string \<times> resumo_dia option) list" where
  \<comment> \<open>\<open>groupby('day_of_week').agg({'revenue': ['sum', 'mean', 'count']}).round(2)\<close>, then
      \<open>.reindex(dias_ordem)\<close>: a label without group gets a row of NaN.\<close>
  "vendas_dia_semana t =
     (let grupos = map (\<lambda>(k, g). (k, \<lparr>s_faturamento_total = round2 (sum_list (map revenue g)),
                                      s_faturamento_medio = round2 (mean (map revenue g)),
                                      s_num_vendas = length g\<rparr>))
                     (groupby (\<lambda>v. Some (day_of_week v)) t)
      in map (\<lambda>d. (d, map_of grupos d)) dias_ordem)"

definition idxmax :: "('k \<times> real option) list \<Rightarrow> 'k option" where
  \<comment> \<open>The label of the first maximum among the entries that are not NaN.\<close>
  "idxmax rows =
     (case concat (map (\<lambda>(k, x). case x of None \<Rightarrow> [] | Some y \<Rightarrow> [(k, y)]) rows) of
        [] \<Rightarrow> None
      | (k, y) # rest \<Rightarrow>
          Some (fst (fold (\<lambda>(k', y') (kb, yb). if yb < y' then (k', y') else (kb, yb))
                       rest (k, y))))"

definition analise_temporal ::
  "venda list \<Rightarrow> insight list \<Rightarrow>
   erro + ((diario list \<times> (string \<times> resumo_dia option) list) \<times> insight list)" where
  "analise_temporal t insights =
     (case vendas_diarias t of
        Inl e \<Rightarrow> Inl e
      | Inr vd \<Rightarrow>
          (let vds = vendas_dia_semana t
           in case idxmax (map (\<lambda>(d, r). (d, map_option s_faturamento_total r)) vds) of
                None \<Rightarrow> Inl ValueError
              | Some melhor_dia \<Rightarrow> Inr ((vd, vds), insights @ [Melhor_dia melhor_dia])))"

definition crescimento_semanal :: "venda list \<Rightarrow> valor" where
  \<comment> \<open>In \<open>identificar_padroes\<close>:
      \<open>groupby('week_number')['revenue'].sum().pct_change().mean() * 100\<close>.\<close>
  "crescimento_semanal t =
     crescimento (map (\<lambda>(k, g). sum_list (map revenue g))
                    (groupby (\<lambda>v. Some (week_number v)) t))"

subsection \<open>\<open>analise_por_produto\<close>\<close>

definition std :: "real list \<Rightarrow> real option" where
  \<comment> \<open>The \<open>'std'\<close> aggregation: the sample standard deviation (\<open>ddof=1\<close>), NaN for fewer
      than two observations.\<close>
  "std xs =
     (if length xs < 2 then None
      else Some (sqrt (sum_list (map (\<lambda>x. (x - mean xs)\<^sup>2) xs) / real (length xs - 1))))"

record resumo_produto =
  produto :: string
  qtd_total :: int
  qtd_media :: real
  num_vendas :: nat
  faturamento_total :: real
  faturamento_medio :: real
  lucro_total :: real
  lucro_medio :: real
  preco_medio :: real
  preco_std :: "real option"
  margem_media :: real

definition agg_produto :: "string \<times> venda list \<Rightarrow> resumo_produto" where
  \<comment> \<open>One row of \<open>groupby('product').agg({...}).round(2)\<close> under the names the code
      gives the columns.\<close>
  "agg_produto kg =
     (case kg of (k, g) \<Rightarrow>
        \<lparr>produto = k,
         qtd_total = sum_list (map quantity g),
         qtd_media = round2 (mean (map (\<lambda>v. real_of_int (quantity v)) g)),
         num_vendas = length g,
         faturamento_total = round2 (sum_list (map revenue g)),
         faturamento_medio = round2 (mean (map revenue g)),
         lucro_total = round2 (sum_list (map profit g)),
         lucro_medio = round2 (mean (map profit g)),
         preco_medio = round2 (mean (map price g)),
         preco_std = map_option round2 (std (map price g)),
         margem_media = round2 (mean (map margin_percent g))\<rparr>)"

definition sort_values_desc :: "('a \<Rightarrow> real) \<Rightarrow> 'a list \<Rightarrow> 'a list" where
  \<comment> \<open>\<open>sort_values(col, ascending=False)\<close>: the table is reversed, sorted ascending and
      reversed again. Rows with equal values are left in their order; pandas promises no
      order for them.\<close>
  "sort_values_desc col rows = rev (sort_key col (rev rows))"

definition analise_por_produto ::
  "venda list \<Rightarrow> insight list \<Rightarrow> erro + (resumo_produto list \<times> insight list)" where
  \<comment> \<open>\<open>analise_produto.index[0]\<close> raises IndexError on a table without rows.\<close>
  "analise_por_produto t insights =
     (let analise_produto =
            sort_values_desc faturamento_total (map agg_produto (groupby (\<lambda>v. Some (product v)) t))
      in case analise_produto of
           [] \<Rightarrow> Inl IndexError
         | produto_top # _ \<Rightarrow>
             (let produto_pior = last analise_produto
              in Inr (analise_produto,
                      insights @
                      [Produto_mais_rentavel (produto produto_top)
                         (faturamento_total produto_top),
                       Produto_menos_rentavel (produto produto_pior)
                         (faturamento_total produto_pior)])))"

subsection \<open>\<open>identificar_padroes\<close>: outliers\<close>

definition quantile :: "real list \<Rightarrow> real \<Rightarrow> real option" where
  \<comment> \<open>\<open>s.quantile(q)\<close> with linear interpolation: position \<open>(n - 1) * q\<close> in the sorted
      values, between the entry below and the next one; NaN on an empty series.\<close>
  "quantile xs q =
     (if xs = [] then None
      else (let s = sort xs;
                h = real (length xs - 1) * q;
                lo = nat \<lfloor>h\<rfloor>;
                hi = min (lo + 1) (length xs - 1)
            in Some (s ! lo + (s ! hi - s ! lo) * (h - real lo))))"

definition outliers :: "venda list \<Rightarrow> venda list" where
  \<comment> \<open>A comparison with NaN is false, so an empty table has no outlier.\<close>
  "outliers t =
     (case (quantile (map revenue t) (1 / 4), quantile (map revenue t) (3 / 4)) of
        (Some Q1, Some Q3) \<Rightarrow>
          (let IQR = Q3 - Q1
           in filter (\<lambda>v. revenue v < Q1 - 1.5 * IQR \<or> revenue v > Q3 + 1.5 * IQR) t)
      | _ \<Rightarrow> [])"

definition identificar_padroes :: "venda list \<Rightarrow> insight list \<Rightarrow> insight list" where
  \<comment> \<open>The insight the method records; its other results are printed only.\<close>
  "identificar_padroes t insights =
     (if length (outliers t) > 0 then insights @ [Vendas_atipicas (length (outliers t))]
      else insights)"

subsection \<open>Descriptions used in the statements\<close>

text \<open>
  \<open>limpar\<close> is the file after \<open>drop_duplicates\<close> and \<open>dropna\<close>, the table whose rows
  \<open>preparar_dados\<close> enriches; \<open>transacao_ma7\<close> is a transaction with its \<open>revenue_ma7\<close>.
  \<open>dia_somado\<close> is the row of one calendar day: the sums over the sales of that day.
  \<open>variacao\<close> is the percentage change of one pair of successive entries.
  \<open>crescimento_excluindo_zero\<close> is the growth statistic in the words of the claim: the mean
  of the changes over the pairs whose first entry is not zero. \<open>crescimento_por_pares\<close>
  describes what the code computes: only a pair of two zeros is left out, and a pair that
  goes from zero to a non-zero entry is an infinite change.
\<close>

definition limpar :: "linha list \<Rightarrow> base list" where
  "limpar df = concat (map to_base (dropna (drop_duplicates df)))"

definition transacao_ma7 :: "venda \<Rightarrow> int \<times> string \<times> string \<times> real \<times> int \<times> real" where
  "transacao_ma7 v = (date v, product v, region v, price v, quantity v, revenue_ma7 v)"

definition dia_somado :: "venda list \<Rightarrow> int \<Rightarrow> diario" where
  "dia_somado t d =
     \<lparr>dia = d, d_revenue = sum_list (map revenue (filter (\<lambda>v. date v = d) t)),
      d_quantity = sum_list (map quantity (filter (\<lambda>v. date v = d) t)),
      d_profit = sum_list (map profit (filter (\<lambda>v. date v = d) t))\<rparr>"

definition variacao :: "real \<times> real \<Rightarrow> valor" where
  "variacao p = afim (\<lambda>q. q - 1) (dividir (snd p) (fst p))"

definition parte_finita :: "valor \<Rightarrow> real" where
  "parte_finita v = (case v of Num a \<Rightarrow> a | _ \<Rightarrow> 0)"

definition crescimento_por_pares :: "real list \<Rightarrow> valor" where
  "crescimento_por_pares xs =
     (let pares = zip xs (tl xs);
          contam = filter (\<lambda>(a, x). \<not> (a = 0 \<and> x = 0)) pares;
          finitas = map (\<lambda>(a, x). x / a - 1) (filter (\<lambda>(a, x). a \<noteq> 0) pares);
          sobe = list_ex (\<lambda>(a, x). a = 0 \<and> 0 < x) pares;
          desce = list_ex (\<lambda>(a, x). a = 0 \<and> x < 0) pares
      in if contam = [] then NaN
         else if sobe \<and> desce then NaN
         else if sobe then Inf_pos
         else if desce then Inf_neg
         else Num (sum_list finitas / real (length finitas) * 100))"

definition crescimento_excluindo_zero :: "real list \<Rightarrow> valor" where
  "crescimento_excluindo_zero xs =
     (let mudancas = map (\<lambda>(a, x). (x - a) / a) (filter (\<lambda>(a, x). a \<noteq> 0) (zip xs (tl xs)))
      in if mudancas = [] then NaN
         else Num (sum_list mudancas / real (length mudancas) * 100))"

text \<open>
  \<open>quartil j\<close> is the quartile \<open>j / 4\<close> of a series by its order statistics: with \<open>n\<close>
  values sorted ascending it sits at position \<open>j * (n - 1) / 4\<close>, the whole part of the
  position naming the value below and the remainder the share of the way to the next
  value. \<open>cerca_inferior\<close> and \<open>cerca_superior\<close> are the Tukey fences
  \<open>Q1 - 1.5 * IQR\<close> and \<open>Q3 + 1.5 * IQR\<close> of the revenue column.
\<close>

definition quartil :: "nat \<Rightarrow> real list \<Rightarrow> real" where
  "quartil j xs =
     (let s = sort xs;
          m = j * (length xs - 1);
          k = m div 4
      in s ! k + real (m mod 4) / 4 * (s ! min (k + 1) (length xs - 1) - s ! k))"

definition cerca_inferior :: "venda list \<Rightarrow> real" where
  "cerca_inferior t =
     quartil 1 (map revenue t) - 1.5 * (quartil 3 (map revenue t) - quartil 1 (map revenue t))"

definition cerca_superior :: "venda list \<Rightarrow> real" where
  "cerca_superior t =
     quartil 3 (map revenue t) + 1.5 * (quartil 3 (map revenue t) - quartil 1 (map revenue t))"

subsection \<open>Example tables\<close>

definition uniform_fixo :: "nat \<Rightarrow> real" where
  \<comment> \<open>A stream of margin draws for the examples; no statement below depends on the draws.\<close>
  "uniform_fixo i = 40"

definition linha_de :: "int \<Rightarrow> string \<Rightarrow> string \<Rightarrow> real \<Rightarrow> int \<Rightarrow> linha" where
  "linha_de d p r pr q =
     \<lparr>l_date = Some d, l_product = Some p, l_region = Some r, l_price = Some pr,
      l_quantity = Some q\<rparr>"

definition df_exemplo :: "linha list" where
  \<comment> \<open>2024-01-01 is day 19723.\<close>
  "df_exemplo =
     [linha_de 19723 ''A'' ''North'' 100 2,
      linha_de 19723 ''A'' ''North'' 100 2,
      linha_de 19724 ''B'' ''South'' 50 1]"

definition df_dois_dias :: "linha list" where
  "df_dois_dias =
     [linha_de 19723 ''A'' ''North'' 100 1,
      linha_de 19724 ''A'' ''North'' 100 3]"

definition df_intercalado :: "linha list" where
  "df_intercalado =
     [linha_de 19723 ''A'' ''North'' 100 1,
      linha_de 19723 ''B'' ''South'' 50 1,
      linha_de 19724 ''A'' ''North'' 100 3]"

definition df_intercalado_2 :: "linha list" where
  \<comment> \<open>The same rows with the sale of product B first.\<close>
  "df_intercalado_2 =
     [linha_de 19723 ''B'' ''South'' 50 1,
      linha_de 19723 ''A'' ''North'' 100 1,
      linha_de 19724 ''A'' ''North'' 100 3]"

definition df_caro :: "linha list" where
  "df_caro = [linha_de 19723 ''A'' ''North'' 250 1]"

definition df_com_lacuna :: "linha list" where
  \<comment> \<open>No sale on day 19724.\<close>
  "df_com_lacuna =
     [linha_de 19723 ''A'' ''North'' 100 1,
      linha_de 19725 ''A'' ''North'' 100 1,
      linha_de 19726 ''B'' ''South'' 100 2]"

definition df_dia_zerado :: "linha list" where
  \<comment> \<open>A sale of quantity 0 two days after the first sale.\<close>
  "df_dia_zerado =
     [linha_de 19723 ''A'' ''North'' 100 1,
      linha_de 19725 ''A'' ''North'' 100 0]"

definition df_iguais :: "linha list" where
  "df_iguais =
     [linha_de 19723 ''A'' ''North'' 50 2,
      linha_de 19724 ''B'' ''South'' 100 1,
      linha_de 19725 ''A'' ''South'' 25 4]"

definition df_um_atipico :: "linha list" where
  \<comment> \<open>Revenues 10, 10, 10, 10, 1000.\<close>
  "df_um_atipico =
     [linha_de 19723 ''A'' ''North'' 10 1,
      linha_de 19724 ''A'' ''North'' 10 1,
      linha_de 19725 ''A'' ''North'' 10 1,
      linha_de 19726 ''A'' ''North'' 10 1,
      linha_de 19727 ''B'' ''North'' 100 10]"

section \<open>Helper lemmas\<close>

subsection \<open>Cleaning and the rolling mean\<close>

lemma set_drop_duplicates_from: "set (drop_duplicates_from seen xs) \<subseteq> set xs"
  by (induction xs arbitrary: seen) auto

lemma length_rolling_mean [simp]: "length (rolling_mean w xs) = length xs"
  by (simp add: rolling_mean_def)

lemma pos_in_strict_sorted:
  "sorted_wrt (<) (g :: nat list) \<Longrightarrow> k < length g \<Longrightarrow>
   length (filter (\<lambda>j. j < g ! k) g) = k"
proof (induction g arbitrary: k)
  case Nil
  then show ?case by simp
next
  case (Cons x g)
  show ?case
  proof (cases k)
    case 0
    have "filter (\<lambda>j. j < x) g = []"
      using Cons.prems(1) by (auto simp: filter_empty_conv)
    with 0 show ?thesis by simp
  next
    case (Suc k')
    then have "x < g ! k'" using Cons.prems by auto
    moreover have "length (filter (\<lambda>j. j < g ! k') g) = k'"
      using Cons.IH [of k'] Cons.prems Suc by simp
    ultimately show ?thesis using Suc by simp
  qed
qed

lemma to_base_origem:
  "b \<in> set (to_base l) \<Longrightarrow>
   l_price l = Some (b_price b) \<and> l_quantity l = Some (b_quantity b)"
  by (auto split: option.splits)

subsection \<open>Sums over groups and the cells of a cross-tabulation\<close>

lemma sum_list_if_distinct:
  "distinct ks \<Longrightarrow>
   (\<Sum>k\<leftarrow>ks. if a = Some k \<and> q then c else (0::real)) =
   (if a \<in> Some ` set ks \<and> q then c else 0)"
  by (induction ks) auto

lemma sum_list_partition:
  "distinct ks \<Longrightarrow>
   (\<Sum>k\<leftarrow>ks. sum_list (map f (filter (\<lambda>v. key v = Some k \<and> Q v) t))) =
   (sum_list (map f (filter (\<lambda>v. key v \<in> Some ` set ks \<and> Q v) t)) :: real)"
proof (induction t)
  case Nil
  then show ?case by simp
next
  case (Cons v t)
  have "(\<Sum>k\<leftarrow>ks. sum_list (map f (filter (\<lambda>v. key v = Some k \<and> Q v) (v # t)))) =
        (\<Sum>k\<leftarrow>ks. (if key v = Some k \<and> Q v then f v else 0)
                  + sum_list (map f (filter (\<lambda>v. key v = Some k \<and> Q v) t)))"
    by (rule arg_cong [where f = sum_list], rule map_cong) auto
  also have "\<dots> = (\<Sum>k\<leftarrow>ks. if key v = Some k \<and> Q v then f v else 0)
                  + (\<Sum>k\<leftarrow>ks. sum_list (map f (filter (\<lambda>v. key v = Some k \<and> Q v) t)))"
    by (simp add: sum_list_addf)
  also have "\<dots> = (if key v \<in> Some ` set ks \<and> Q v then f v else 0)
                  + sum_list (map f (filter (\<lambda>v. key v \<in> Some ` set ks \<and> Q v) t))"
    using Cons by (simp only: sum_list_if_distinct)
  finally show ?case by simp
qed

lemma sum_list_partition_snd:
  "distinct ks \<Longrightarrow>
   (\<Sum>k\<leftarrow>ks. sum_list (map f (filter (\<lambda>v. Q v \<and> key v = Some k) t))) =
   (sum_list (map f (filter (\<lambda>v. Q v \<and> key v \<in> Some ` set ks) t)) :: real)"
  using sum_list_partition [of ks f key Q t] by (simp add: conj_commute)

lemma set_map_filter_key: "set (List.map_filter key t) = {k. \<exists>v \<in> set t. key v = Some k}"
  by (force simp: List.map_filter_def)

lemma sum_list_concat_real: "sum_list (concat xss) = (sum_list (map sum_list xss) :: real)"
  by (induction xss) auto


lemma posicao_Some:
  "x \<in> set xs \<Longrightarrow> \<exists>i. posicao x xs = Some i \<and> i < length xs \<and> xs ! i = x"
  by (induction xs) auto

lemma niveis_cobre:
  "bem_formada d \<Longrightarrow> chave d v = Some k \<Longrightarrow> v \<in> set t \<Longrightarrow> k \<in> set (niveis d t)"
  by (cases d) (auto simp: bem_formada_def set_map_filter_key)

lemma niveis_distinct: "bem_formada d \<Longrightarrow> distinct (niveis d t)"
  by (cases d) (auto simp: bem_formada_def)

lemma pivot_labels:
  assumes "bem_formada idx" "bem_formada cols"
  shows "distinct (index (pivot_table obs f idx cols t))"
    and "distinct (columns (pivot_table obs f idx cols t))"
    and "v \<in> set t \<Longrightarrow> chave idx v = Some r \<Longrightarrow> chave cols v = Some c \<Longrightarrow>
         r \<in> set (index (pivot_table obs f idx cols t)) \<and>
         c \<in> set (columns (pivot_table obs f idx cols t))"
  using assms
  by (auto simp: pivot_table_def Let_def niveis_distinct niveis_cobre set_map_filter_key)

lemma pivot_valores:
  "valores (pivot_table obs f idx cols t) =
   map (\<lambda>r. map (\<lambda>c. sum_list (map f
      (filter (\<lambda>v. chave idx v = Some r \<and> chave cols v = Some c) t)))
        (columns (pivot_table obs f idx cols t))) (index (pivot_table obs f idx cols t))"
  by (simp add: pivot_table_def Let_def)

lemma pivot_soma:
  assumes "bem_formada idx" "bem_formada cols"
  shows "soma_celulas (pivot_table obs f idx cols t) =
         sum_list (map f (filter (\<lambda>v. chave idx v \<noteq> None \<and> chave cols v \<noteq> None) t))"
proof -
  define P where "P = pivot_table obs f idx cols t"
  have d: "distinct (index P)" "distinct (columns P)"
    unfolding P_def using pivot_labels(1,2) [OF assms] by auto
  have cover: "chave idx v \<in> Some ` set (index P) \<and> chave cols v \<in> Some ` set (columns P)
     \<longleftrightarrow> chave idx v \<noteq> None \<and> chave cols v \<noteq> None" if "v \<in> set t" for v
    using pivot_labels(3) [OF assms that, of _ _ obs f] unfolding P_def by auto
  have "soma_celulas P =
        (\<Sum>r\<leftarrow>index P. \<Sum>c\<leftarrow>columns P. sum_list (map f
            (filter (\<lambda>v. chave idx v = Some r \<and> chave cols v = Some c) t)))"
    unfolding soma_celulas_def P_def pivot_valores
    by (simp add: sum_list_concat_real o_def)
  also have "\<dots> = (\<Sum>r\<leftarrow>index P. sum_list (map f
            (filter (\<lambda>v. chave idx v = Some r \<and> chave cols v \<in> Some ` set (columns P)) t)))"
    by (simp only: sum_list_partition_snd [OF d(2)])
  also have "\<dots> = sum_list (map f
            (filter (\<lambda>v. chave idx v \<in> Some ` set (index P) \<and> chave cols v \<in> Some ` set (columns P)) t))"
    by (simp only: sum_list_partition [OF d(1)])
  also have "\<dots> = sum_list (map f (filter (\<lambda>v. chave idx v \<noteq> None \<and> chave cols v \<noteq> None) t))"
    by (rule arg_cong [where f = "\<lambda>xs. sum_list (map f xs)"], rule filter_cong) (auto simp: cover)
  finally show ?thesis unfolding P_def .
qed

lemma pivot_celula:
  assumes "bem_formada idx" "bem_formada cols"
    and "v \<in> set t" "chave idx v = Some r" "chave cols v = Some c'"
    and "w \<in> set t" "chave idx w = Some r'" "chave cols w = Some c"
  shows "celula (pivot_table obs f idx cols t) r c =
         Some (sum_list (map f (filter (\<lambda>v. chave idx v = Some r \<and> chave cols v = Some c) t)))"
proof -
  define P where "P = pivot_table obs f idx cols t"
  have "r \<in> set (index P)" "c \<in> set (columns P)"
    unfolding P_def using pivot_labels(3) [OF assms(1,2)] assms(3-) by blast+
  then obtain i j where i: "posicao r (index P) = Some i" "i < length (index P)" "index P ! i = r"
    and j: "posicao c (columns P) = Some j" "j < length (columns P)" "columns P ! j = c"
    using posicao_Some by metis
  have "valores P ! i ! j =
        sum_list (map f (filter (\<lambda>v. chave idx v = Some r \<and> chave cols v = Some c) t))"
    unfolding P_def pivot_valores using i j unfolding P_def by simp
  then show ?thesis unfolding P_def [symmetric] celula_def using i(1) j(1) by simp
qed

lemma bem_formada_product: "bem_formada dim_product"
  by (simp add: bem_formada_def dim_product_def)

lemma bem_formada_region: "bem_formada dim_region"
  by (simp add: bem_formada_def dim_region_def)

lemma bem_formada_price_category: "bem_formada dim_price_category"
proof -
  have "k \<in> set [Baixo, Medio, Alto, Premium]" for k
    by (cases k) simp_all
  then show ?thesis
    by (simp add: bem_formada_def dim_price_category_def)
qed

lemma soma_produto_regiao:
  "soma_celulas (pivot_produto_regiao obs t) = sum_list (map revenue t)"
  unfolding pivot_produto_regiao_def
  by (simp add: pivot_soma [OF bem_formada_product bem_formada_region])
     (simp add: dim_product_def dim_region_def)

lemma soma_regiao_categoria:
  "soma_celulas (pivot_regiao_categoria obs t) =
   sum_list (map revenue (filter (\<lambda>v. price_category v \<noteq> None) t))"
  unfolding pivot_regiao_categoria_def
  by (simp add: pivot_soma [OF bem_formada_region bem_formada_price_category])
     (simp add: dim_price_category_def dim_region_def)

lemma preparar_dados_nth:
  "v \<in> set (preparar_dados uniform df) \<Longrightarrow>
   price_category v = cut_price (price v) \<and> order_value_category v = cut_revenue (revenue v)
   \<and> day_of_week v = day_name (date v) \<and> week_number v = isocalendar_week (date v)"
  by (auto simp: preparar_dados_def enriquecer_def Let_def)

subsection \<open>The growth statistic\<close>

lemma foldr_somar:
  "NaN \<notin> set vs \<Longrightarrow>
   foldr somar vs (Num 0) =
     (if Inf_pos \<in> set vs then (if Inf_neg \<in> set vs then NaN else Inf_pos)
      else if Inf_neg \<in> set vs then Inf_neg
      else Num (sum_list (map parte_finita vs)))"
proof (induction vs)
  case Nil
  then show ?case by simp
next
  case (Cons v vs)
  then have IH: "foldr somar vs (Num 0) =
     (if Inf_pos \<in> set vs then (if Inf_neg \<in> set vs then NaN else Inf_pos)
      else if Inf_neg \<in> set vs then Inf_neg
      else Num (sum_list (map parte_finita vs)))" by simp
  from Cons.prems have "v \<noteq> NaN" by auto
  then show ?case
    by (cases v) (simp_all add: IH parte_finita_def)
qed

lemma pct_change_pairs:
  "pct_change xs = (if xs = [] then [] else NaN # map variacao (zip xs (tl xs)))"
  by (cases xs) (auto simp: pct_change_def variacao_def)

lemma variacao_cases:
  "variacao (a, x) =
     (if a \<noteq> 0 then Num (x / a - 1)
      else if 0 < x then Inf_pos else if x < 0 then Inf_neg else NaN)"
  by (simp add: variacao_def dividir_def)

lemma crescimento_eq: "crescimento xs = crescimento_por_pares xs"
proof (cases "xs = []")
  case True
  then show ?thesis
    by (simp add: crescimento_def crescimento_por_pares_def pct_change_def mean_skipna_def)
next
  case False
  define pares where "pares = zip xs (tl xs)"
  define contam where "contam = filter (\<lambda>(a, x). \<not> (a = 0 \<and> x = 0)) pares"
  define validos where "validos = filter (\<lambda>v. v \<noteq> NaN) (pct_change xs)"
  have nan: "variacao p \<noteq> NaN \<longleftrightarrow> (case p of (a, x) \<Rightarrow> \<not> (a = 0 \<and> x = 0))" for p
    by (cases p) (simp add: variacao_cases)
  have validos: "validos = map variacao contam"
    unfolding validos_def contam_def pares_def
    by (simp add: pct_change_pairs False filter_map o_def nan)
  have nn: "NaN \<notin> set validos"
    by (auto simp: validos_def)
  have ip: "Inf_pos = variacao p \<longleftrightarrow> (case p of (a, x) \<Rightarrow> a = 0 \<and> 0 < x)" for p
    by (cases p) (simp add: variacao_cases)
  have im: "Inf_neg = variacao p \<longleftrightarrow> (case p of (a, x) \<Rightarrow> a = 0 \<and> x < 0)" for p
    by (cases p) (simp add: variacao_cases)
  have pos: "Inf_pos \<in> set validos \<longleftrightarrow> list_ex (\<lambda>(a, x). a = 0 \<and> 0 < x) pares"
    unfolding validos contam_def
    by (simp add: list_ex_iff image_iff ip Bex_def) (metis (mono_tags, lifting) case_prodE case_prodI less_irrefl)
  have neg: "Inf_neg \<in> set validos \<longleftrightarrow> list_ex (\<lambda>(a, x). a = 0 \<and> x < 0) pares"
    unfolding validos contam_def
    by (simp add: list_ex_iff image_iff im Bex_def) (metis (mono_tags, lifting) case_prodE case_prodI less_irrefl)
  have vazio: "validos = [] \<longleftrightarrow> contam = []"
    by (simp add: validos)
  have fin: "map parte_finita validos = map (\<lambda>(a, x). x / a - 1) (filter (\<lambda>(a, x). a \<noteq> 0) pares)"
    if "\<not> list_ex (\<lambda>(a, x). a = 0 \<and> 0 < x) pares" "\<not> list_ex (\<lambda>(a, x). a = 0 \<and> x < 0) pares"
  proof -
    have "contam = filter (\<lambda>(a, x). a \<noteq> 0) pares"
      unfolding contam_def
    proof (intro filter_cong refl)
      fix p assume p: "p \<in> set pares"
      obtain a x where ax: "p = (a, x)" by (cases p)
      have "a = 0 \<Longrightarrow> x = 0"
        using that p ax by (force simp: list_ex_iff not_less_iff_gr_or_eq)
      then show "(case p of (a, x) \<Rightarrow> \<not> (a = 0 \<and> x = 0)) = (case p of (a, x) \<Rightarrow> a \<noteq> 0)"
        by (auto simp: ax)
    qed
    then show ?thesis
      unfolding validos
      by (auto simp: parte_finita_def variacao_cases)
  qed
  have len: "length validos = length (filter (\<lambda>(a, x). a \<noteq> 0) pares)"
    if "\<not> list_ex (\<lambda>(a, x). a = 0 \<and> 0 < x) pares" "\<not> list_ex (\<lambda>(a, x). a = 0 \<and> x < 0) pares"
    using fin [OF that] by (metis length_map)
  have "crescimento xs =
        (if validos = [] then NaN
         else afim (\<lambda>m. m * 100) (afim (\<lambda>s. s / real (length validos)) (foldr somar validos (Num 0))))"
    by (simp add: crescimento_def mean_skipna_def validos_def Let_def)
  also have "\<dots> = crescimento_por_pares xs"
    unfolding foldr_somar [OF nn] crescimento_por_pares_def Let_def
      pares_def [symmetric] contam_def [symmetric] vazio pos neg
    using fin len by auto
  finally show ?thesis .
qed

lemma excluindo_zero_eq:
  "\<forall>(a, x) \<in> set (zip xs (tl xs)). a = 0 \<longrightarrow> x = 0 \<Longrightarrow>
   crescimento_por_pares xs = crescimento_excluindo_zero xs"
proof -
  assume h: "\<forall>(a, x) \<in> set (zip xs (tl xs)). a = 0 \<longrightarrow> x = 0"
  define pares where "pares = zip xs (tl xs)"
  have a: "filter (\<lambda>(a, x). \<not> (a = 0 \<and> x = 0)) pares = filter (\<lambda>(a, x). a \<noteq> 0) pares"
    using h unfolding pares_def by (intro filter_cong refl) auto
  have b: "\<not> list_ex (\<lambda>(a, x). a = 0 \<and> 0 < x) pares" "\<not> list_ex (\<lambda>(a, x). a = 0 \<and> x < 0) pares"
    using h unfolding pares_def by (auto simp: list_ex_iff)
  have c: "map (\<lambda>(a, x). x / a - 1) (filter (\<lambda>(a, x). a \<noteq> 0) pares) =
           map (\<lambda>(a, x). (x - a) / a) (filter (\<lambda>(a, x). a \<noteq> 0) pares)"
    by (intro map_cong refl) (auto simp: diff_divide_distrib)
  show ?thesis
    unfolding crescimento_por_pares_def crescimento_excluindo_zero_def Let_def
      pares_def [symmetric] a c using b by simp
qed

subsection \<open>The daily series\<close>

lemma set_map_filter_Some [simp]: "set (List.map_filter (\<lambda>v. Some (f v)) t) = f ` set t"
  by (auto simp: set_map_filter_key)

lemma minimo_Min: "xs \<noteq> [] \<Longrightarrow> minimo xs = Some (Min (set xs))"
  by (cases xs) (simp_all del: set_simps add: Min.set_eq_fold)

lemma maximo_Max: "xs \<noteq> [] \<Longrightarrow> maximo xs = Some (Max (set xs))"
  by (cases xs) (simp_all del: set_simps add: Max.set_eq_fold)

lemma filter_eq_distinct:
  "distinct ks \<Longrightarrow> filter (\<lambda>k. k = d) ks = (if d \<in> set ks then [d] else [])"
  by (induction ks) auto

lemma sorted_le_last: "sorted xs \<Longrightarrow> x \<in> set xs \<Longrightarrow> x \<le> last xs"
  by (induction xs) auto

lemma agg_por_data_eq:
  "agg_por_data t = map (dia_somado t) (sort (remdups (map date t)))"
  by (simp add: agg_por_data_def groupby_def dia_somado_def List.map_filter_def o_def)

lemma bin_dia_somado:
  assumes "distinct ks" "set ks = date ` set t"
  shows "(let bin = filter (\<lambda>x. dia x = d) (map (dia_somado t) ks)
          in \<lparr>dia = d, d_revenue = sum_list (map d_revenue bin),
              d_quantity = sum_list (map d_quantity bin),
              d_profit = sum_list (map d_profit bin)\<rparr>) = dia_somado t d"
proof -
  have f: "filter (\<lambda>x. dia x = d) (map (dia_somado t) ks) = map (dia_somado t) (filter (\<lambda>k. k = d) ks)"
    by (simp add: filter_map o_def dia_somado_def)
  show ?thesis
  proof (cases "d \<in> set ks")
    case True
    then show ?thesis
      by (simp add: f filter_eq_distinct [OF assms(1)] Let_def) (simp add: dia_somado_def)
  next
    case False
    then have "filter (\<lambda>v. date v = d) t = []"
      using assms(2) by (auto simp: filter_empty_conv)
    then show ?thesis
      using False by (simp add: f filter_eq_distinct [OF assms(1)] Let_def dia_somado_def)
  qed
qed

lemma resample_D_eq:
  assumes "t \<noteq> []"
  shows "\<exists>lo hi. resample_D (agg_por_data t) = map (dia_somado t) [lo..hi] \<and>
           date ` set t \<subseteq> {lo..hi}"
proof -
  define ks where "ks = sort (remdups (map date t))"
  have ks: "distinct ks" "set ks = date ` set t" "sorted ks" "ks \<noteq> []"
    using assms by (auto simp: ks_def simp flip: set_empty)
  then obtain k ks' where kk: "ks = k # ks'" by (cases ks) auto
  have hd: "dia (dia_somado t k) = k" "dia (last (map (dia_somado t) ks)) = last ks"
    using ks(4) by (simp_all add: dia_somado_def last_map)
  have "resample_D (agg_por_data t) =
        map (\<lambda>d. let bin = filter (\<lambda>x. dia x = d) (map (dia_somado t) ks)
          in \<lparr>dia = d, d_revenue = sum_list (map d_revenue bin),
              d_quantity = sum_list (map d_quantity bin),
              d_profit = sum_list (map d_profit bin)\<rparr>) [k..last ks]"
    unfolding agg_por_data_eq ks_def [symmetric] resample_D_def
    using hd(2) by (simp add: kk dia_somado_def)
  then have "resample_D (agg_por_data t) = map (dia_somado t) [k..last ks]"
    by (simp only: bin_dia_somado [OF ks(1,2)])
  moreover have "date ` set t \<subseteq> {k..last ks}"
  proof
    fix d assume "d \<in> date ` set t"
    then have d: "d \<in> set ks" using ks(2) by simp
    then have "k \<le> d" using ks(3) kk by auto
    moreover have "d \<le> last ks" using ks(3) d by (rule sorted_le_last)
    ultimately show "d \<in> {k..last ks}" by simp
  qed
  ultimately show ?thesis by blast
qed

lemma find_dia_somado:
  "find (\<lambda>x. dia x = d) (map (dia_somado t) ds) = (if d \<in> set ds then Some (dia_somado t d) else None)"
  by (induction ds) (auto simp: dia_somado_def)

lemma reindex_dia_somado:
  assumes "date ` set t \<subseteq> {lo..hi}"
  shows "reindex_dias idx (map (dia_somado t) [lo..hi]) = map (dia_somado t) idx"
proof -
  have "(case find (\<lambda>x. dia x = d) (map (dia_somado t) [lo..hi]) of
                Some x \<Rightarrow> x
              | None \<Rightarrow> \<lparr>dia = d, d_revenue = 0, d_quantity = 0, d_profit = 0\<rparr>) = dia_somado t d" for d
  proof (cases "d \<in> set [lo..hi]")
    case True
    then show ?thesis by (simp add: find_dia_somado)
  next
    case False
    then have "filter (\<lambda>v. date v = d) t = []"
      using assms by (auto simp: filter_empty_conv)
    then show ?thesis using False by (simp add: find_dia_somado) (simp add: dia_somado_def)
  qed
  then show ?thesis by (simp add: reindex_dias_def)
qed

lemma vendas_diarias_eq:
  assumes "t \<noteq> []"
  shows "vendas_diarias t =
         Inr (map (dia_somado t) [Min (date ` set t)..Max (date ` set t)])"
proof -
  obtain lo hi where r: "resample_D (agg_por_data t) = map (dia_somado t) [lo..hi]"
      "date ` set t \<subseteq> {lo..hi}"
    using resample_D_eq [OF assms] by blast
  have "map date t \<noteq> []" using assms by simp
  then show ?thesis
    by (simp add: vendas_diarias_def minimo_Min maximo_Max r(1) reindex_dia_somado [OF r(2)]
        date_range_def)
qed

lemma vendas_diarias_vazia: "vendas_diarias [] = Inl ValueError"
  by (simp add: vendas_diarias_def)

subsection \<open>The weekday aggregate\<close>

lemma day_name_in_ordem: "day_name z \<in> set dias_ordem"
proof -
  have "weekday z < 7" by (simp add: weekday_def)
  then have "weekday z < length dias_ordem" by (simp add: dias_ordem_def)
  then show ?thesis unfolding day_name_def by (rule nth_mem)
qed

lemma idxmax_Some: "(k, Some y) \<in> set rows \<Longrightarrow> idxmax rows \<noteq> None"
proof -
  assume a: "(k, Some y) \<in> set rows"
  have "(k, y) \<in> set (concat (map (\<lambda>(k, x). case x of None \<Rightarrow> [] | Some y \<Rightarrow> [(k, y)]) rows))"
    using a by force
  then have "concat (map (\<lambda>(k, x). case x of None \<Rightarrow> [] | Some y \<Rightarrow> [(k, y)]) rows) \<noteq> []"
    by (metis empty_iff empty_set)
  then show ?thesis
    by (auto simp: idxmax_def split: list.splits)
qed

lemma vendas_dia_semana_labels: "map fst (vendas_dia_semana t) = dias_ordem"
  by (simp add: vendas_dia_semana_def Let_def o_def)

lemma vendas_dia_semana_presente:
  assumes "v \<in> set t" "day_of_week v \<in> set dias_ordem"
  shows "\<exists>r. (day_of_week v, Some r) \<in> set (vendas_dia_semana t)"
proof -
  define grupos where "grupos = map (\<lambda>(k, g). (k, \<lparr>s_faturamento_total = round2 (sum_list (map revenue g)),
                                      s_faturamento_medio = round2 (mean (map revenue g)),
                                      s_num_vendas = length g\<rparr>))
                     (groupby (\<lambda>v. Some (day_of_week v)) t)"
  have "map fst grupos = sort (remdups (map day_of_week t))"
    by (simp add: grupos_def groupby_def o_def List.map_filter_def)
  then have "fst ` set grupos = day_of_week ` set t"
    by (metis set_map set_remdups set_sort)
  then have "day_of_week v \<in> fst ` set grupos" using assms(1) by simp
  then obtain r where "map_of grupos (day_of_week v) = Some r"
    by (metis map_of_eq_None_iff not_Some_eq)
  then have "(day_of_week v, Some r) \<in> set (vendas_dia_semana t)"
    using assms(2) by (simp add: vendas_dia_semana_def Let_def grupos_def image_iff)
  then show ?thesis ..
qed

subsection \<open>The aggregation by product\<close>

lemma set_sort_values_desc [simp]: "set (sort_values_desc c rows) = set rows"
  by (simp add: sort_values_desc_def)

lemma sort_values_desc_Nil [simp]: "sort_values_desc c rows = [] \<longleftrightarrow> rows = []"
  by (metis set_sort_values_desc set_empty)

lemma distinct_sort_values_desc:
  "distinct (map f (sort_values_desc c rows)) = distinct (map f rows)"
  by (simp add: distinct_map sort_values_desc_def)

lemma groupby_product:
  "groupby (\<lambda>v. Some (product v)) t =
   map (\<lambda>k. (k, filter (\<lambda>v. product v = k) t)) (sort (remdups (map product t)))"
  by (simp add: groupby_def List.map_filter_def o_def)

lemma produto_agg [simp]: "produto (agg_produto (k, g)) = k"
  by (simp add: agg_produto_def)

lemma linhas_produto:
  "set (map agg_produto (groupby (\<lambda>v. Some (product v)) t)) =
   (\<lambda>k. agg_produto (k, filter (\<lambda>v. product v = k) t)) ` product ` set t"
  by (auto simp: groupby_product)

lemma chaves_produto:
  "map produto (map agg_produto (groupby (\<lambda>v. Some (product v)) t)) =
   sort (remdups (map product t))"
  by (simp add: groupby_product o_def)

lemma analise_por_produto_vazia: "analise_por_produto [] insights = Inl IndexError"
  by (simp add: analise_por_produto_def groupby_def List.map_filter_def sort_values_desc_def)

lemma analise_por_produto_Inr:
  assumes "t \<noteq> []"
  shows "\<exists>ins. analise_por_produto t insights =
           Inr (sort_values_desc faturamento_total
                  (map agg_produto (groupby (\<lambda>v. Some (product v)) t)), ins)"
proof -
  have "sort (remdups (map product t)) \<noteq> []"
    using assms by (metis list.map_disc_iff remdups_eq_nil_iff set_empty set_sort)
  then have "map agg_produto (groupby (\<lambda>v. Some (product v)) t) \<noteq> []"
    by (simp add: groupby_product)
  then have "sort_values_desc faturamento_total
                  (map agg_produto (groupby (\<lambda>v. Some (product v)) t)) \<noteq> []"
    by simp
  then show ?thesis
    by (auto simp: analise_por_produto_def Let_def split: list.splits)
qed

lemma preco_std_agg:
  "preco_std (agg_produto (k, g)) = None \<longleftrightarrow> length g < 2"
  by (simp add: agg_produto_def std_def)

lemma num_vendas_agg [simp]: "num_vendas (agg_produto (k, g)) = length g"
  by (simp add: agg_produto_def)

subsection \<open>Quartiles\<close>

lemma quantile_constante:
  assumes "xs \<noteq> []" "\<forall>x \<in> set xs. x = c" "0 \<le> q" "q \<le> 1"
  shows "quantile xs q = Some c"
proof -
  define n where "n = length xs"
  define h where "h = real (n - 1) * q"
  define lo where "lo = nat \<lfloor>h\<rfloor>"
  define hi where "hi = min (lo + 1) (n - 1)"
  have n: "0 < n" using assms(1) by (simp add: n_def)
  have "0 \<le> h" unfolding h_def using assms(3) by simp
  have "h \<le> real (n - 1)" unfolding h_def using assms(4)
    by (simp add: mult_left_le)
  then have "\<lfloor>h\<rfloor> \<le> int (n - 1)" by (simp add: floor_le_iff)
  then have lo: "lo < n" unfolding lo_def using n by linarith
  have hi: "hi < n" unfolding hi_def using n by simp
  have el: "sort xs ! i = c" if "i < n" for i
  proof -
    have "i < length (sort xs)" using that by (simp add: n_def)
    then have "sort xs ! i \<in> set (sort xs)" by (rule nth_mem)
    then show ?thesis using assms(2) by simp
  qed
  have "quantile xs q = Some (sort xs ! lo + (sort xs ! hi - sort xs ! lo) * (h - real lo))"
    using assms(1) by (simp add: quantile_def Let_def lo_def hi_def h_def n_def)
  then show ?thesis by (simp add: el [OF lo] el [OF hi])
qed

lemma quantile_None: "quantile xs q = None \<longleftrightarrow> xs = []"
  by (simp add: quantile_def Let_def)

lemma quantile_quartil:
  assumes "xs \<noteq> []"
  shows "quantile xs (real j / 4) = Some (quartil j xs)"
proof -
  define m where "m = j * (length xs - 1)"
  define h where "h = real (length xs - 1) * (real j / 4)"
  have h: "h = real m / 4"
    by (simp add: h_def m_def)
  have fl: "\<lfloor>h\<rfloor> = int (m div 4)"
    unfolding h using floor_divide_of_nat_eq [of m 4, where ?'a = real] by simp
  then have lo: "nat \<lfloor>h\<rfloor> = m div 4" by simp
  have "real m = 4 * real (m div 4) + real (m mod 4)"
    by (metis mult_div_mod_eq of_nat_add of_nat_mult of_nat_numeral)
  then have fr: "h - real (m div 4) = real (m mod 4) / 4"
    unfolding h by (simp add: field_simps)
  have "quantile xs (real j / 4) =
        Some (sort xs ! nat \<lfloor>h\<rfloor> +
          (sort xs ! min (nat \<lfloor>h\<rfloor> + 1) (length xs - 1) - sort xs ! nat \<lfloor>h\<rfloor>) *
          (h - real (nat \<lfloor>h\<rfloor>)))"
    using assms by (simp add: quantile_def Let_def h_def)
  also have "\<dots> = Some (quartil j xs)"
    unfolding lo fr by (simp add: quartil_def Let_def m_def)
  finally show ?thesis .
qed

lemma outliers_por_quartis:
  "outliers t = filter (\<lambda>v. revenue v < cerca_inferior t \<or> cerca_superior t < revenue v) t"
proof (cases "t = []")
  case True
  then show ?thesis by (simp add: outliers_def quantile_def)
next
  case False
  then have ne: "map revenue t \<noteq> []" by simp
  have q1: "quantile (map revenue t) (1 / 4) = Some (quartil 1 (map revenue t))"
    using quantile_quartil [OF ne, of 1] by simp
  have q3: "quantile (map revenue t) (3 / 4) = Some (quartil 3 (map revenue t))"
    using quantile_quartil [OF ne, of 3] by simp
  show ?thesis
    by (simp add: outliers_def q1 q3 Let_def cerca_inferior_def cerca_superior_def)
qed

text \<open>
  The revenues 10, 10, 10, 10, 1000 have both quartiles at 10, and the sale of 1000 is the
  only outlier.
\<close>

lemma exemplo_um_atipico:
  "map revenue (preparar_dados uniform_fixo df_um_atipico) = [10, 10, 10, 10, 1000] \<and>
   quantile [10, 10, 10, 10, 1000] (1 / 4) = Some 10 \<and>
   quantile [10, 10, 10, 10, 1000] (3 / 4) = Some 10 \<and>
   map revenue (outliers (preparar_dados uniform_fixo df_um_atipico)) = [1000]"
  by code_simp

subsection \<open>The rolling mean within a product\<close>

lemma drop_duplicates_from_filter:
  "{x \<in> set seen'. P x} = {x \<in> set seen. P x} \<Longrightarrow>
   filter P (drop_duplicates_from seen xs) = drop_duplicates_from seen' (filter P xs)"
proof (induction xs arbitrary: seen seen')
  case Nil
  then show ?case by simp
next
  case (Cons x xs)
  show ?case
  proof (cases "P x")
    case True
    then have m: "x \<in> set seen' \<longleftrightarrow> x \<in> set seen" using Cons.prems by blast
    have "{y \<in> set (x # seen'). P y} = {y \<in> set (x # seen). P y}"
      using Cons.prems by auto
    from Cons.IH [OF this] Cons.IH [OF Cons.prems] show ?thesis
      using True m by simp
  next
    case False
    have "{y \<in> set seen'. P y} = {y \<in> set (x # seen). P y}"
      using Cons.prems False by auto
    from Cons.IH [OF this] Cons.IH [OF Cons.prems] show ?thesis
      using False by simp
  qed
qed

lemma to_base_filter:
  "filter (\<lambda>b. b_product b = p) (concat (map to_base ls)) =
   concat (map to_base (filter (\<lambda>l. l_product l = Some p) ls))"
  by (induction ls) (auto split: option.splits)

lemma limpar_filter:
  "filter (\<lambda>b. b_product b = p) (limpar df) = limpar (filter (\<lambda>l. l_product l = Some p) df)"
proof -
  have dd: "filter (\<lambda>l. l_product l = Some p) (drop_duplicates df) =
        drop_duplicates (filter (\<lambda>l. l_product l = Some p) df)"
    unfolding drop_duplicates_def by (rule drop_duplicates_from_filter) simp
  have c: "filter (\<lambda>l. l_product l = Some p) (filter completa xs) =
        filter completa (filter (\<lambda>l. l_product l = Some p) xs)" for xs
    by (induction xs) auto
  have "filter (\<lambda>b. b_product b = p) (limpar df) =
        concat (map to_base (filter (\<lambda>l. l_product l = Some p)
          (filter completa (drop_duplicates df))))"
    by (simp only: limpar_def dropna_def to_base_filter)
  also have "\<dots> = concat (map to_base (filter completa
          (drop_duplicates (filter (\<lambda>l. l_product l = Some p) df))))"
    by (simp only: c dd)
  finally show ?thesis by (simp only: limpar_def dropna_def)
qed

lemma filtro_pelas_posicoes:
  "map ((!) bs) (filter (\<lambda>j. cond (bs ! j)) [0..<length bs]) = filter cond bs"
proof -
  have "filter cond (map ((!) bs) [0..<length bs]) = filter cond bs"
    by (simp only: map_nth)
  then show ?thesis
    by (simp add: filter_map o_def)
qed

lemma ma7_por_produto:
  "map revenue_ma7 (filter (\<lambda>v. product v = p) (preparar_dados uniform df)) =
   rolling_mean 7 (map revenue (filter (\<lambda>v. product v = p) (preparar_dados uniform df)))"
proof -
  define bs where "bs = concat (map to_base (dropna (drop_duplicates df)))"
  define g where "g = filter (\<lambda>i. b_product (bs ! i) = p) [0..<length bs]"
  define serie where
    "serie = map (\<lambda>j. b_price (bs ! j) * real_of_int (b_quantity (bs ! j))) g"
  have prep: "preparar_dados uniform df = map (enriquecer uniform bs) [0..<length bs]"
    by (simp add: preparar_dados_def bs_def Let_def)
  have sel: "filter (\<lambda>v. product v = p) (preparar_dados uniform df) =
             map (enriquecer uniform bs) g"
    by (simp add: prep filter_map o_def g_def enriquecer_def Let_def)
  have rev: "map revenue (map (enriquecer uniform bs) g) = serie"
    by (simp add: serie_def enriquecer_def Let_def)
  have grp: "grupo_de bs i = g" if "i \<in> set g" for i
    using that by (simp add: grupo_de_def g_def)
  have sg: "sorted_wrt (<) g" by (simp add: g_def sorted_wrt_filter)
  have "map revenue_ma7 (map (enriquecer uniform bs) g) = rolling_mean 7 serie"
  proof (rule nth_equalityI)
    show "length (map revenue_ma7 (map (enriquecer uniform bs) g)) =
          length (rolling_mean 7 serie)"
      by (simp add: serie_def)
  next
    fix k assume "k < length (map revenue_ma7 (map (enriquecer uniform bs) g))"
    then have k: "k < length g" by simp
    then have mem: "g ! k \<in> set g" by simp
    have "revenue_ma7 (enriquecer uniform bs (g ! k)) =
          rolling_mean 7 serie ! length (filter (\<lambda>j. j < g ! k) g)"
      by (simp add: enriquecer_def transform_ma7_def Let_def grp [OF mem] serie_def)
    also have "\<dots> = rolling_mean 7 serie ! k"
      by (simp add: pos_in_strict_sorted [OF sg k])
    finally show "map revenue_ma7 (map (enriquecer uniform bs) g) ! k =
                  rolling_mean 7 serie ! k"
      using k by simp
  qed
  then show ?thesis unfolding sel rev .
qed

lemma transacoes_por_produto:
  "map transacao_ma7 (filter (\<lambda>v. product v = p) (preparar_dados uniform df)) =
   map (\<lambda>(b, m). (b_date b, b_product b, b_region b, b_price b, b_quantity b, m))
     (zip (filter (\<lambda>b. b_product b = p) (limpar df))
          (rolling_mean 7 (map (\<lambda>b. b_price b * real_of_int (b_quantity b))
                              (filter (\<lambda>b. b_product b = p) (limpar df)))))"
proof -
  define bs where "bs = limpar df"
  define g where "g = filter (\<lambda>i. b_product (bs ! i) = p) [0..<length bs]"
  define T where "T = filter (\<lambda>v. product v = p) (preparar_dados uniform df)"
  have sel: "T = map (enriquecer uniform bs) g"
    by (simp add: T_def preparar_dados_def bs_def limpar_def filter_map o_def g_def
        enriquecer_def Let_def)
  have fb: "filter (\<lambda>b. b_product b = p) bs = map ((!) bs) g"
    unfolding g_def by (rule filtro_pelas_posicoes [of bs "\<lambda>b. b_product b = p", symmetric])
  have rev: "map revenue T = map (\<lambda>b. b_price b * real_of_int (b_quantity b)) (map ((!) bs) g)"
    by (simp add: sel enriquecer_def Let_def)
  have ma: "map revenue_ma7 T = rolling_mean 7 (map revenue T)"
    unfolding T_def by (rule ma7_por_produto)
  have "map transacao_ma7 T =
        map (\<lambda>(b, m). (b_date b, b_product b, b_region b, b_price b, b_quantity b, m))
          (zip (map ((!) bs) g) (map revenue_ma7 T))"
    by (simp add: sel zip_map_map transacao_ma7_def enriquecer_def Let_def zip_same_conv_map)
  then show ?thesis
    unfolding T_def [symmetric] bs_def [symmetric] fb ma rev .
qed

lemma ma7_invariante:
  assumes "\<forall>q. filter (\<lambda>l. l_product l = Some q) df = filter (\<lambda>l. l_product l = Some q) df'"
  shows "map transacao_ma7 (filter (\<lambda>v. product v = p) (preparar_dados uniform df)) =
         map transacao_ma7 (filter (\<lambda>v. product v = p) (preparar_dados uniform' df'))"
proof -
  have "filter (\<lambda>b. b_product b = p) (limpar df) = filter (\<lambda>b. b_product b = p) (limpar df')"
    using assms by (simp only: limpar_filter)
  then show ?thesis by (simp only: transacoes_por_produto)
qed

section \<open>Feature derivation\<close>

text \<open>
  C1. Every row of the table that \<open>preparar_dados\<close> produces carries the price and the
  quantity of a row of the file, and its \<open>revenue\<close> is the product of the two.
\<close>

theorem revenue_is_price_times_quantity:
  "\<forall>v \<in> set (preparar_dados uniform df).
     revenue v = price v * real_of_int (quantity v) \<and>
     (\<exists>l \<in> set df. l_price l = Some (price v) \<and> l_quantity l = Some (quantity v))"
proof
  fix v assume "v \<in> set (preparar_dados uniform df)"
  define bs where "bs = concat (map to_base (dropna (drop_duplicates df)))"
  from \<open>v \<in> set (preparar_dados uniform df)\<close>
  obtain i where i: "i < length bs" and v: "v = enriquecer uniform bs i"
    by (auto simp: preparar_dados_def bs_def Let_def)
  from i have "bs ! i \<in> set bs" by simp
  then obtain l where l: "l \<in> set (dropna (drop_duplicates df))" and b: "bs ! i \<in> set (to_base l)"
    unfolding bs_def by auto
  from l have "l \<in> set df"
    using set_drop_duplicates_from [of "[]" df] by (auto simp: dropna_def drop_duplicates_def)
  moreover have "l_price l = Some (price v) \<and> l_quantity l = Some (quantity v)"
    using to_base_origem [OF b] by (simp add: v enriquecer_def Let_def)
  moreover have "revenue v = price v * real_of_int (quantity v)"
    by (simp add: v enriquecer_def Let_def)
  ultimately show "revenue v = price v * real_of_int (quantity v) \<and>
     (\<exists>l \<in> set df. l_price l = Some (price v) \<and> l_quantity l = Some (quantity v))"
    by blast
qed

theorem revenue_is_price_times_quantity_witness:
  "map revenue (preparar_dados uniform_fixo df_exemplo) = [200, 50] \<and>
   list_all (\<lambda>v. revenue v = price v * real_of_int (quantity v) \<and>
      (\<exists>l \<in> set df_exemplo. l_price l = Some (price v) \<and> l_quantity l = Some (quantity v)))
     (preparar_dados uniform_fixo df_exemplo)"
proof -
  have "map revenue (preparar_dados uniform_fixo df_exemplo) = [200, 50]"
    by code_simp
  then show ?thesis
    using revenue_is_price_times_quantity [of uniform_fixo df_exemplo]
    by (simp add: list_all_iff)
qed

text \<open>
  C2. As stated (any reordering of the file leaves every row's \<open>revenue_ma7\<close> unchanged) the
  claim fails: the rolling mean follows the row order of the table, which is the row order
  of the file, and nothing sorts by date. With the two sales of product A in date order the
  column is 100, 200; with the same two rows reversed the sale of day 19724 comes first and
  the column is 300, 200, so the sale of day 19723 gets 200 instead of 100.
\<close>

theorem revenue_ma7_reorder_counterexample:
  "map date (preparar_dados uniform_fixo df_dois_dias) = [19723, 19724] \<and>
   map revenue_ma7 (preparar_dados uniform_fixo df_dois_dias) = [100, 200] \<and>
   map date (preparar_dados uniform_fixo (rev df_dois_dias)) = [19724, 19723] \<and>
   map revenue_ma7 (preparar_dados uniform_fixo (rev df_dois_dias)) = [300, 200]"
  by code_simp

text \<open>
  C2, amended. Within each product, \<open>revenue_ma7\<close> read in table order is the trailing mean
  of at most 7 observations of that product's revenues in table order, the order of the
  file. So a reordering of the file that keeps the rows of every product in their relative
  order leaves the \<open>revenue_ma7\<close> of every transaction unchanged.
\<close>

theorem revenue_ma7_per_product_in_row_order:
  "map revenue_ma7 (filter (\<lambda>v. product v = p) (preparar_dados uniform df)) =
     rolling_mean 7 (map revenue (filter (\<lambda>v. product v = p) (preparar_dados uniform df))) \<and>
   ((\<forall>q. filter (\<lambda>l. l_product l = Some q) df = filter (\<lambda>l. l_product l = Some q) df') \<longrightarrow>
      map transacao_ma7 (filter (\<lambda>v. product v = p) (preparar_dados uniform df)) =
      map transacao_ma7 (filter (\<lambda>v. product v = p) (preparar_dados uniform' df')))"
  using ma7_por_produto [of p uniform df] ma7_invariante [of df df' p uniform uniform']
  by blast

theorem revenue_ma7_per_product_in_row_order_witness:
  "map transacao_ma7 (filter (\<lambda>v. product v = ''A'') (preparar_dados uniform_fixo df_intercalado)) =
     [(19723, ''A'', ''North'', 100, 1, 100), (19724, ''A'', ''North'', 100, 3, 200)] \<and>
   map transacao_ma7
     (filter (\<lambda>v. product v = ''A'') (preparar_dados uniform_fixo df_intercalado_2)) =
     [(19723, ''A'', ''North'', 100, 1, 100), (19724, ''A'', ''North'', 100, 3, 200)]"
proof -
  have h: "\<forall>q. filter (\<lambda>l. l_product l = Some q) df_intercalado =
               filter (\<lambda>l. l_product l = Some q) df_intercalado_2"
    by (auto simp: df_intercalado_def df_intercalado_2_def linha_de_def)
  have a: "map transacao_ma7
      (filter (\<lambda>v. product v = ''A'') (preparar_dados uniform_fixo df_intercalado)) =
     [(19723, ''A'', ''North'', 100, 1, 100), (19724, ''A'', ''North'', 100, 3, 200)]"
    by code_simp
  from revenue_ma7_per_product_in_row_order
    [of "''A''" uniform_fixo df_intercalado df_intercalado_2 uniform_fixo] h
  have "map transacao_ma7
      (filter (\<lambda>v. product v = ''A'') (preparar_dados uniform_fixo df_intercalado)) =
    map transacao_ma7
      (filter (\<lambda>v. product v = ''A'') (preparar_dados uniform_fixo df_intercalado_2))"
    by blast
  then show ?thesis using a by simp
qed

section \<open>Cross-tabulation\<close>

text \<open>
  C3. As stated (for every table and every pair of dimensions the cells sum to the total of
  the measure) the claim fails for the region by price category table: a sale priced 250
  has no price category, is in no group, and its revenue of 250 is in no cell. The cells
  sum to 0 whichever default the installed pandas has for \<open>observed\<close>, and with
  \<open>observed\<close> on the region of that sale is not even a row of the table.
\<close>

theorem crosstab_total_counterexample:
  "sum_list (map revenue (preparar_dados uniform_fixo df_caro)) = 250 \<and>
   soma_celulas (snd (analise_cruzada False (preparar_dados uniform_fixo df_caro))) = 0 \<and>
   soma_celulas (snd (analise_cruzada True (preparar_dados uniform_fixo df_caro))) = 0 \<and>
   index (snd (analise_cruzada True (preparar_dados uniform_fixo df_caro))) = []"
  by code_simp

text \<open>
  C3, amended. For every table and every pair of dimensions, the cross-tabulation holds a
  cell for each combination of a row value and a column value found among the rows that
  have both keys, the cell holding the sum of the measure over the rows with that
  combination (0 when there is none), and the cells sum to the measure over the rows that
  have both keys. The product by region table therefore sums to the total revenue; the
  region by price category table sums to the revenue of the rows that have a price
  category, which is the total revenue when every row has one.
\<close>

theorem crosstab_dense_and_total:
  "(bem_formada idx \<and> bem_formada cols \<longrightarrow>
      soma_celulas (pivot_table observed f idx cols t) =
        sum_list (map f (filter (\<lambda>v. chave idx v \<noteq> None \<and> chave cols v \<noteq> None) t)) \<and>
      (\<forall>v \<in> set t. \<forall>w \<in> set t. \<forall>r r' c c'.
         chave idx v = Some r \<and> chave cols v = Some c' \<and>
         chave idx w = Some r' \<and> chave cols w = Some c \<longrightarrow>
         celula (pivot_table observed f idx cols t) r c =
           Some (sum_list (map f (filter (\<lambda>u. chave idx u = Some r \<and> chave cols u = Some c) t)))))
   \<and> soma_celulas (fst (analise_cruzada observed t)) = sum_list (map revenue t)
   \<and> (\<forall>v \<in> set t. \<forall>w \<in> set t.
         celula (fst (analise_cruzada observed t)) (product v) (region w) =
           Some (sum_list (map revenue
             (filter (\<lambda>u. product u = product v \<and> region u = region w) t))))
   \<and> soma_celulas (snd (analise_cruzada observed t)) =
        sum_list (map revenue (filter (\<lambda>v. price_category v \<noteq> None) t))
   \<and> ((\<forall>v \<in> set t. price_category v \<noteq> None) \<longrightarrow>
        soma_celulas (snd (analise_cruzada observed t)) = sum_list (map revenue t))"
proof (intro conjI impI ballI allI)
  assume "bem_formada idx \<and> bem_formada cols"
  then show "soma_celulas (pivot_table observed f idx cols t) =
        sum_list (map f (filter (\<lambda>v. chave idx v \<noteq> None \<and> chave cols v \<noteq> None) t))"
    by (simp add: pivot_soma)
next
  fix v w r r' c c'
  assume "bem_formada idx \<and> bem_formada cols" "v \<in> set t" "w \<in> set t"
    "chave idx v = Some r \<and> chave cols v = Some c' \<and>
         chave idx w = Some r' \<and> chave cols w = Some c"
  then show "celula (pivot_table observed f idx cols t) r c =
           Some (sum_list (map f (filter (\<lambda>u. chave idx u = Some r \<and> chave cols u = Some c) t)))"
    using pivot_celula [of idx cols v t r c' w r' c observed f] by simp
next
  show "soma_celulas (fst (analise_cruzada observed t)) = sum_list (map revenue t)"
    by (simp add: analise_cruzada_def soma_produto_regiao)
next
  fix v w assume "v \<in> set t" "w \<in> set t"
  then show "celula (fst (analise_cruzada observed t)) (product v) (region w) =
           Some (sum_list (map revenue
             (filter (\<lambda>u. product u = product v \<and> region u = region w) t)))"
    using pivot_celula [OF bem_formada_product bem_formada_region, of v t "product v" "region v"
        w "product w" "region w" observed revenue]
    by (simp add: analise_cruzada_def pivot_produto_regiao_def)
       (simp add: dim_product_def dim_region_def)
next
  show "soma_celulas (snd (analise_cruzada observed t)) =
        sum_list (map revenue (filter (\<lambda>v. price_category v \<noteq> None) t))"
    by (simp add: analise_cruzada_def soma_regiao_categoria)
next
  assume "\<forall>v \<in> set t. price_category v \<noteq> None"
  then have "filter (\<lambda>v. price_category v \<noteq> None) t = t"
    by (simp add: filter_id_conv)
  then show "soma_celulas (snd (analise_cruzada observed t)) = sum_list (map revenue t)"
    by (simp add: analise_cruzada_def soma_regiao_categoria)
qed

theorem crosstab_dense_and_total_witness:
  "soma_celulas (fst (analise_cruzada False (preparar_dados uniform_fixo df_exemplo))) = 250 \<and>
   soma_celulas (snd (analise_cruzada False (preparar_dados uniform_fixo df_exemplo))) = 250 \<and>
   celula (fst (analise_cruzada False (preparar_dados uniform_fixo df_exemplo)))
     ''A'' ''South'' = Some 0 \<and>
   soma_celulas (pivot_table True revenue dim_product dim_price_category
     (preparar_dados uniform_fixo df_exemplo)) = 250"
proof -
  define T where "T = preparar_dados uniform_fixo df_exemplo"
  have tot: "sum_list (map revenue T) = 250"
    unfolding T_def by code_simp
  have cats: "\<forall>v \<in> set T. price_category v \<noteq> None"
    unfolding T_def by code_simp
  have len: "length T = 2"
    unfolding T_def by code_simp
  have keys: "product (T ! 0) = ''A''" "region (T ! 1) = ''South''"
    unfolding T_def by code_simp+
  have vazio: "sum_list (map revenue
      (filter (\<lambda>u. product u = ''A'' \<and> region u = ''South'') T)) = 0"
    unfolding T_def by code_simp
  have ambos: "sum_list (map revenue
      (filter (\<lambda>v. chave dim_product v \<noteq> None \<and> chave dim_price_category v \<noteq> None) T)) = 250"
    unfolding T_def by code_simp
  have mem: "T ! 0 \<in> set T" "T ! 1 \<in> set T"
    using len by simp_all
  note th = crosstab_dense_and_total [of dim_region dim_price_category False revenue T]
  note th' = crosstab_dense_and_total [of dim_product dim_price_category True revenue T]
  from th have "soma_celulas (fst (analise_cruzada False T)) = 250"
    using tot by simp
  moreover from th cats have "soma_celulas (snd (analise_cruzada False T)) = 250"
    using tot by simp
  moreover from th mem
  have "celula (fst (analise_cruzada False T)) (product (T ! 0)) (region (T ! 1)) =
        Some (sum_list (map revenue
          (filter (\<lambda>u. product u = product (T ! 0) \<and> region u = region (T ! 1)) T)))"
    by blast
  then have "celula (fst (analise_cruzada False T)) ''A'' ''South'' = Some 0"
    using keys vazio by simp
  moreover from th' bem_formada_product bem_formada_price_category
  have "soma_celulas (pivot_table True revenue dim_product dim_price_category T) =
        sum_list (map revenue
          (filter (\<lambda>v. chave dim_product v \<noteq> None \<and> chave dim_price_category v \<noteq> None) T))"
    by blast
  then have "soma_celulas (pivot_table True revenue dim_product dim_price_category T) = 250"
    using ambos by simp
  ultimately show ?thesis unfolding T_def by simp
qed

text \<open>
  C10. A row whose price is at most 0 or above 200 has no price category, a row whose
  revenue is at most 0 has no order value category, and the cells of the region by price
  category table sum to the revenue of the rows priced in \<open>(0, 200]\<close> only: for the table
  of one sale priced 250 that sum is strictly below the total revenue.
\<close>

theorem missing_category_rows_left_out:
  "(\<forall>v \<in> set (preparar_dados uniform df).
      ((price v \<le> 0 \<or> 200 < price v) \<longrightarrow> price_category v = None) \<and>
      (revenue v \<le> 0 \<longrightarrow> order_value_category v = None)) \<and>
   soma_celulas (snd (analise_cruzada observed (preparar_dados uniform df))) =
     sum_list (map revenue
       (filter (\<lambda>v. 0 < price v \<and> price v \<le> 200) (preparar_dados uniform df))) \<and>
   soma_celulas (snd (analise_cruzada observed (preparar_dados uniform df_caro))) <
     sum_list (map revenue (preparar_dados uniform df_caro))"
proof (intro conjI ballI impI)
  fix v assume v: "v \<in> set (preparar_dados uniform df)"
  { assume "price v \<le> 0 \<or> 200 < price v"
    then show "price_category v = None"
      using preparar_dados_nth [OF v] by (auto simp: cut_price_def) }
  { assume "revenue v \<le> 0"
    then show "order_value_category v = None"
      using preparar_dados_nth [OF v] by (auto simp: cut_revenue_def) }
next
  have "filter (\<lambda>v. price_category v \<noteq> None) (preparar_dados uniform df) =
        filter (\<lambda>v. 0 < price v \<and> price v \<le> 200) (preparar_dados uniform df)"
  proof (rule filter_cong [OF refl])
    fix v assume "v \<in> set (preparar_dados uniform df)"
    from preparar_dados_nth [OF this]
    show "(price_category v \<noteq> None) = (0 < price v \<and> price v \<le> 200)"
      by (auto simp: cut_price_def)
  qed
  then show "soma_celulas (snd (analise_cruzada observed (preparar_dados uniform df))) =
     sum_list (map revenue
       (filter (\<lambda>v. 0 < price v \<and> price v \<le> 200) (preparar_dados uniform df)))"
    by (simp add: analise_cruzada_def soma_regiao_categoria)
next
  have "preparar_dados uniform df_caro =
        [enriquecer uniform (concat (map to_base (dropna (drop_duplicates df_caro)))) 0]"
    by (simp add: preparar_dados_def df_caro_def linha_de_def drop_duplicates_def dropna_def
        completa_def Let_def)
  then show "soma_celulas (snd (analise_cruzada observed (preparar_dados uniform df_caro))) <
     sum_list (map revenue (preparar_dados uniform df_caro))"
    by (simp add: analise_cruzada_def soma_regiao_categoria enriquecer_def Let_def
        df_caro_def linha_de_def drop_duplicates_def dropna_def completa_def cut_price_def)
qed

theorem missing_category_rows_left_out_witness:
  "map price (preparar_dados uniform_fixo df_caro) = [250] \<and>
   map price_category (preparar_dados uniform_fixo df_caro) = [None] \<and>
   soma_celulas (snd (analise_cruzada False (preparar_dados uniform_fixo df_caro))) = 0 \<and>
   sum_list (map revenue (preparar_dados uniform_fixo df_caro)) = 250"
proof -
  define T where "T = preparar_dados uniform_fixo df_caro"
  have len: "length T = 1" and pr: "price (T ! 0) = 250" and tot: "sum_list (map revenue T) = 250"
    unfolding T_def by code_simp+
  have vazio: "sum_list (map revenue (filter (\<lambda>v. 0 < price v \<and> price v \<le> 200) T)) = 0"
    unfolding T_def by code_simp
  have T1: "T = [T ! 0]"
    using len by (cases T) simp_all
  note th = missing_category_rows_left_out [of uniform_fixo df_caro False, folded T_def]
  have "T ! 0 \<in> set T" using len by simp
  with th pr have "price_category (T ! 0) = None" by force
  then have "map price_category T = [None]" using T1 by (metis list.simps(8,9))
  moreover have "map price T = [250]" using T1 pr by (metis list.simps(8,9))
  moreover from th vazio have "soma_celulas (snd (analise_cruzada False T)) = 0" by simp
  ultimately show ?thesis using tot unfolding T_def by simp
qed

section \<open>Temporal analysis\<close>

text \<open>
  C4. For a table with at least one row, the daily series of \<open>analise_temporal\<close> has one
  row per calendar day from the first date to the last, \<open>(max - min).days + 1\<close> rows in
  all; each row holds the sums of revenue, quantity and profit over the sales of its day,
  so a day without a sale has a row of zeros.
\<close>

theorem daily_series_complete:
  "t \<noteq> [] \<Longrightarrow>
   \<exists>vd. vendas_diarias t = Inr vd \<and>
     map dia vd = [Min (date ` set t)..Max (date ` set t)] \<and>
     int (length vd) = Max (date ` set t) - Min (date ` set t) + 1 \<and>
     (\<forall>x \<in> set vd.
        d_revenue x = sum_list (map revenue (filter (\<lambda>v. date v = dia x) t)) \<and>
        d_quantity x = sum_list (map quantity (filter (\<lambda>v. date v = dia x) t)) \<and>
        d_profit x = sum_list (map profit (filter (\<lambda>v. date v = dia x) t))) \<and>
     (\<forall>x \<in> set vd. dia x \<notin> date ` set t \<longrightarrow>
        d_revenue x = 0 \<and> d_quantity x = 0 \<and> d_profit x = 0)"
proof -
  assume ne: "t \<noteq> []"
  define lo where "lo = Min (date ` set t)"
  define hi where "hi = Max (date ` set t)"
  define vd where "vd = map (dia_somado t) [lo..hi]"
  have eq: "vendas_diarias t = Inr vd"
    unfolding vd_def lo_def hi_def by (rule vendas_diarias_eq [OF ne])
  have "date (hd t) \<in> date ` set t" using ne by simp
  then have "lo \<le> date (hd t)" "date (hd t) \<le> hi"
    unfolding lo_def hi_def by simp_all
  then have "lo \<le> hi" by simp
  then have len: "int (length vd) = hi - lo + 1"
    by (simp add: vd_def)
  have dias: "map dia vd = [lo..hi]"
    by (simp add: vd_def o_def dia_somado_def)
  have sums: "d_revenue x = sum_list (map revenue (filter (\<lambda>v. date v = dia x) t)) \<and>
        d_quantity x = sum_list (map quantity (filter (\<lambda>v. date v = dia x) t)) \<and>
        d_profit x = sum_list (map profit (filter (\<lambda>v. date v = dia x) t))"
    if "x \<in> set vd" for x
    using that by (auto simp: vd_def dia_somado_def)
  have zeros: "d_revenue x = 0 \<and> d_quantity x = 0 \<and> d_profit x = 0"
    if "x \<in> set vd" "dia x \<notin> date ` set t" for x
  proof -
    have "filter (\<lambda>v. date v = dia x) t = []"
      using that(2) by (force simp: filter_empty_conv image_iff)
    then show ?thesis using sums [OF that(1)] by simp
  qed
  show ?thesis
    using eq dias len sums zeros unfolding lo_def hi_def by blast
qed

theorem daily_series_complete_witness:
  "preparar_dados uniform_fixo df_com_lacuna \<noteq> [] \<and>
   map_sum id (map dia) (vendas_diarias (preparar_dados uniform_fixo df_com_lacuna)) =
     Inr [19723, 19724, 19725, 19726] \<and>
   map_sum id (map d_revenue) (vendas_diarias (preparar_dados uniform_fixo df_com_lacuna)) =
     Inr [100, 0, 100, 200]"
proof -
  define T where "T = preparar_dados uniform_fixo df_com_lacuna"
  have ne: "T \<noteq> []" unfolding T_def by code_simp
  have mm: "Min (date ` set T) = 19723" "Max (date ` set T) = 19726"
    unfolding T_def by code_simp+
  have sums: "map (\<lambda>d. sum_list (map revenue (filter (\<lambda>v. date v = d) T)))
                [19723, 19724, 19725, 19726] = [100, 0, 100, 200]"
    unfolding T_def by code_simp
  have upto: "[19723..19726] = [19723, 19724, 19725, 19726 :: int]"
    by code_simp
  note th = daily_series_complete [OF ne, unfolded mm upto]
  then obtain vd where all: "vendas_diarias T = Inr vd \<and>
      map dia vd = [19723, 19724, 19725, 19726] \<and>
      int (length vd) = 19726 - 19723 + 1 \<and>
      (\<forall>x \<in> set vd.
        d_revenue x = sum_list (map revenue (filter (\<lambda>v. date v = dia x) T)) \<and>
        d_quantity x = sum_list (map quantity (filter (\<lambda>v. date v = dia x) T)) \<and>
        d_profit x = sum_list (map profit (filter (\<lambda>v. date v = dia x) T))) \<and>
      (\<forall>x \<in> set vd. dia x \<notin> date ` set T \<longrightarrow>
        d_revenue x = 0 \<and> d_quantity x = 0 \<and> d_profit x = 0)" ..
  then have vd: "vendas_diarias T = Inr vd" "map dia vd = [19723, 19724, 19725, 19726]"
    and s: "\<forall>x \<in> set vd. d_revenue x = sum_list (map revenue (filter (\<lambda>v. date v = dia x) T))"
    by simp_all
  have "map d_revenue vd = map (\<lambda>d. sum_list (map revenue (filter (\<lambda>v. date v = d) T))) (map dia vd)"
    using s by (simp add: o_def)
  then have "map d_revenue vd = [100, 0, 100, 200]"
    unfolding vd(2) sums .
  then show ?thesis
    using ne vd unfolding T_def by simp
qed

text \<open>
  C5. As stated (every pair of successive days whose first day has zero revenue is left
  out of the mean) the claim fails. In the table below day 19724 has no sale, so the daily
  revenues are 100, 0, 100, 200 and the changes are NaN, -1, +infinity, 1: the change from
  the empty day to the next is a division by zero, an infinity, and \<open>mean\<close> skips NaN only.
  The code's statistic is +infinity, where the mean over the pairs with a non-zero first
  day is 0.
\<close>

theorem growth_counterexample:
  "map_sum id (map d_revenue) (vendas_diarias (preparar_dados uniform_fixo df_com_lacuna)) =
     Inr [100, 0, 100, 200] \<and>
   map_sum id crescimento_diario (vendas_diarias (preparar_dados uniform_fixo df_com_lacuna)) =
     Inr Inf_pos \<and>
   crescimento_excluindo_zero [100, 0, 100, 200] = Num 0"
  by code_simp

text \<open>
  C5, amended. The day-over-day statistic is the mean, times 100, of the successive
  percentage changes of the gap-filled daily revenues, in which only the pairs of two
  zero-revenue days are left out. A pair going from zero to a positive revenue makes the
  statistic +infinity, one going from zero to a negative revenue makes it -infinity, and
  both together make it NaN. When every zero-revenue day is followed by a zero-revenue day,
  the statistic is the mean over the pairs whose first day has non-zero revenue, as the
  claim has it. The week-over-week statistic is the same function of the revenue summed by
  week number.
\<close>

theorem growth_statistic:
  "crescimento_diario vd = crescimento_por_pares (map d_revenue vd) \<and>
   crescimento_semanal t =
     crescimento_por_pares (map (\<lambda>(k, g). sum_list (map revenue g))
                              (groupby (\<lambda>v. Some (week_number v)) t)) \<and>
   ((\<forall>(a, x) \<in> set (zip (map d_revenue vd) (tl (map d_revenue vd))). a = 0 \<longrightarrow> x = 0) \<longrightarrow>
      crescimento_diario vd = crescimento_excluindo_zero (map d_revenue vd))"
  using excluindo_zero_eq [of "map d_revenue vd"]
  by (simp add: crescimento_diario_def crescimento_semanal_def crescimento_eq)

theorem growth_statistic_witness:
  "map_sum id (map d_revenue) (vendas_diarias (preparar_dados uniform_fixo df_dia_zerado)) =
     Inr [100, 0, 0] \<and>
   map_sum id crescimento_diario (vendas_diarias (preparar_dados uniform_fixo df_dia_zerado)) =
     Inr (Num (- 100))"
proof -
  define T where "T = preparar_dados uniform_fixo df_dia_zerado"
  have s: "map_sum id (map d_revenue) (vendas_diarias T) = Inr [100, 0, 0]"
    unfolding T_def by code_simp
  then obtain vd where vd: "vendas_diarias T = Inr vd" "map d_revenue vd = [100, 0, 0]"
    by (cases "vendas_diarias T") auto
  have e: "crescimento_excluindo_zero [100, 0, 0] = Num (- 100)"
    by code_simp
  have "crescimento_diario vd = crescimento_excluindo_zero (map d_revenue vd)"
    using growth_statistic [of vd T, THEN conjunct2, THEN conjunct2] by (simp add: vd(2))
  then show ?thesis
    using s vd e unfolding T_def by simp
qed

text \<open>
  C8. For a table with at least one row, \<open>analise_temporal\<close> returns, and its weekday
  aggregate has exactly 7 rows labelled Monday to Sunday in that order, whichever weekdays
  have sales; a weekday without sale has a row without values (NaN).
\<close>

theorem weekday_aggregate_seven_rows:
  "preparar_dados uniform df \<noteq> [] \<Longrightarrow>
   \<exists>vd vds ins. analise_temporal (preparar_dados uniform df) insights = Inr ((vd, vds), ins) \<and>
     map fst vds = [''Monday'', ''Tuesday'', ''Wednesday'', ''Thursday'', ''Friday'',
       ''Saturday'', ''Sunday''] \<and>
     length vds = 7"
proof -
  define T where "T = preparar_dados uniform df"
  assume "preparar_dados uniform df \<noteq> []"
  then have ne: "T \<noteq> []" by (simp add: T_def)
  then obtain v where v: "v \<in> set T" by (cases T) auto
  then have "day_of_week v \<in> set dias_ordem"
    using preparar_dados_nth [of v uniform df] day_name_in_ordem by (simp add: T_def)
  from vendas_dia_semana_presente [OF v this]
  obtain r where "(day_of_week v, Some r) \<in> set (vendas_dia_semana T)" ..
  then have "(day_of_week v, Some (s_faturamento_total r)) \<in>
      set (map (\<lambda>(d, r). (d, map_option s_faturamento_total r)) (vendas_dia_semana T))"
    by force
  then obtain melhor where m: "idxmax (map (\<lambda>(d, r). (d, map_option s_faturamento_total r))
      (vendas_dia_semana T)) = Some melhor"
    using idxmax_Some by fastforce
  have "analise_temporal T insights =
        Inr ((map (dia_somado T) [Min (date ` set T)..Max (date ` set T)], vendas_dia_semana T),
             insights @ [Melhor_dia melhor])"
    by (simp add: analise_temporal_def vendas_diarias_eq [OF ne] m)
  moreover have "map fst (vendas_dia_semana T) = [''Monday'', ''Tuesday'', ''Wednesday'',
      ''Thursday'', ''Friday'', ''Saturday'', ''Sunday'']"
    using vendas_dia_semana_labels [of T] by (simp add: dias_ordem_def)
  moreover have "length (vendas_dia_semana T) = 7"
    by (simp add: vendas_dia_semana_def dias_ordem_def Let_def)
  ultimately show ?thesis unfolding T_def by auto
qed

theorem weekday_aggregate_seven_rows_witness:
  "preparar_dados uniform_fixo df_exemplo \<noteq> [] \<and>
   map_sum id (\<lambda>r. map fst (snd (fst r)))
     (analise_temporal (preparar_dados uniform_fixo df_exemplo) []) =
     Inr [''Monday'', ''Tuesday'', ''Wednesday'', ''Thursday'', ''Friday'', ''Saturday'',
       ''Sunday''] \<and>
   map_sum id (\<lambda>r. map (\<lambda>x. x \<noteq> None) (map snd (snd (fst r))))
     (analise_temporal (preparar_dados uniform_fixo df_exemplo) []) =
     Inr [True, True, False, False, False, False, False]"
proof -
  define T where "T = preparar_dados uniform_fixo df_exemplo"
  have ne: "T \<noteq> []" unfolding T_def by code_simp
  have pres: "map (\<lambda>x. x \<noteq> None) (map snd (vendas_dia_semana T)) =
      [True, True, False, False, False, False, False]"
    unfolding T_def by code_simp
  from weekday_aggregate_seven_rows [of uniform_fixo df_exemplo "[]", folded T_def, OF ne]
  obtain vd vds ins where r: "analise_temporal T [] = Inr ((vd, vds), ins)"
    and l: "map fst vds = [''Monday'', ''Tuesday'', ''Wednesday'', ''Thursday'', ''Friday'',
       ''Saturday'', ''Sunday'']" by auto
  have "vds = vendas_dia_semana T"
    using r by (auto simp: analise_temporal_def Let_def split: sum.splits option.splits)
  then show ?thesis
    using ne r l pres unfolding T_def by simp
qed

section \<open>Aggregation by product\<close>

text \<open>
  C6. As stated (the std of a group of one row is 0) the claim fails: \<open>'std'\<close> is the
  sample standard deviation, which divides by \<open>n - 1\<close>, and for one observation it is
  NaN. The table of one sale aggregates without error into one row whose \<open>preco_std\<close> is
  NaN, not 0.
\<close>

theorem single_row_group_std_counterexample:
  "map_sum id (\<lambda>r. map num_vendas (fst r))
     (analise_por_produto (preparar_dados uniform_fixo df_caro) []) = Inr [1] \<and>
   map_sum id (\<lambda>r. map preco_std (fst r))
     (analise_por_produto (preparar_dados uniform_fixo df_caro) []) = Inr [None] \<and>
   map_sum id (\<lambda>r. map preco_std (fst r))
     (analise_por_produto (preparar_dados uniform_fixo df_caro) []) \<noteq> Inr [Some 0]"
proof -
  define T where "T = preparar_dados uniform_fixo df_caro"
  have g: "groupby (\<lambda>v. Some (product v)) T = [(''A'', T)]"
    unfolding T_def by code_simp
  have len: "length T = 1"
    unfolding T_def by code_simp
  have "\<exists>ins. analise_por_produto T [] = Inr ([agg_produto (''A'', T)], ins)"
    by (simp add: analise_por_produto_def g sort_values_desc_def Let_def)
  then obtain ins where "analise_por_produto T [] = Inr ([agg_produto (''A'', T)], ins)" ..
  moreover have "preco_std (agg_produto (''A'', T)) = None"
    using len by (simp add: preco_std_agg)
  ultimately show ?thesis
    unfolding T_def [symmetric] using len by simp
qed

text \<open>
  C6, amended. When a product has exactly one row, the aggregation by product returns,
  and the row of that product has \<open>num_vendas = 1\<close> and an undefined \<open>preco_std\<close> (NaN);
  in the returned table \<open>preco_std\<close> is NaN exactly for the groups of one row.
\<close>

theorem single_row_group_std_is_nan:
  "length (filter (\<lambda>v. product v = p) t) = 1 \<Longrightarrow>
   \<exists>rows ins. analise_por_produto t insights = Inr (rows, ins) \<and>
     (\<exists>r \<in> set rows. produto r = p \<and> num_vendas r = 1 \<and> preco_std r = None) \<and>
     (\<forall>r \<in> set rows. (preco_std r = None) = (num_vendas r = 1))"
proof -
  assume one: "length (filter (\<lambda>v. product v = p) t) = 1"
  then have "filter (\<lambda>v. product v = p) t \<noteq> []" by auto
  then have pin: "p \<in> product ` set t"
    by (auto simp: filter_empty_conv)
  then have ne: "t \<noteq> []" by auto
  define rows where "rows = sort_values_desc faturamento_total
                  (map agg_produto (groupby (\<lambda>v. Some (product v)) t))"
  obtain ins where r: "analise_por_produto t insights = Inr (rows, ins)"
    using analise_por_produto_Inr [OF ne] unfolding rows_def by blast
  have rs: "set rows = (\<lambda>k. agg_produto (k, filter (\<lambda>v. product v = k) t)) ` product ` set t"
    unfolding rows_def using linhas_produto [of t] by simp
  define r0 where "r0 = agg_produto (p, filter (\<lambda>v. product v = p) t)"
  have "r0 \<in> set rows" unfolding rs r0_def using pin by blast
  moreover have "produto r0 = p \<and> num_vendas r0 = 1 \<and> preco_std r0 = None"
    unfolding r0_def using one by (simp add: preco_std_agg)
  moreover have "(preco_std r = None) = (num_vendas r = 1)" if "r \<in> set rows" for r
  proof -
    from that obtain k where k: "k \<in> product ` set t"
      "r = agg_produto (k, filter (\<lambda>v. product v = k) t)"
      unfolding rs by blast
    define n where "n = length (filter (\<lambda>v. product v = k) t)"
    from k(1) have "filter (\<lambda>v. product v = k) t \<noteq> []"
      by (auto simp: filter_empty_conv)
    then have "0 < n" by (simp add: n_def)
    moreover have "preco_std r = None \<longleftrightarrow> n < 2"
      unfolding k(2) preco_std_agg n_def ..
    moreover have "num_vendas r = n"
      unfolding k(2) n_def by simp
    ultimately show ?thesis by arith
  qed
  ultimately show ?thesis using r by blast
qed

theorem single_row_group_std_is_nan_witness:
  "length (filter (\<lambda>v. product v = ''B'') (preparar_dados uniform_fixo df_iguais)) = 1 \<and>
   (\<exists>rows ins. analise_por_produto (preparar_dados uniform_fixo df_iguais) [] = Inr (rows, ins) \<and>
     (\<exists>r \<in> set rows. produto r = ''B'' \<and> num_vendas r = 1 \<and> preco_std r = None))"
proof -
  define T where "T = preparar_dados uniform_fixo df_iguais"
  have one: "length (filter (\<lambda>v. product v = ''B'') T) = 1"
    unfolding T_def by code_simp
  from single_row_group_std_is_nan [OF one, of "[]"]
  show ?thesis using one unfolding T_def by auto
qed

text \<open>
  C7. \<open>analise_por_produto\<close> fails on the table without rows, and only there: the
  aggregation itself returns an empty table and reading its first label raises IndexError,
  the error the specification calls EmptyGroupError. On a table with at least one row it
  returns one aggregate row per product, each counting the rows of its product.
\<close>

theorem aggregation_fails_only_on_empty:
  "(t = [] \<longrightarrow> analise_por_produto t insights = Inl IndexError) \<and>
   (t \<noteq> [] \<longrightarrow>
     (\<exists>rows ins. analise_por_produto t insights = Inr (rows, ins) \<and>
        distinct (map produto rows) \<and>
        set (map produto rows) = product ` set t \<and>
        (\<forall>r \<in> set rows. num_vendas r = length (filter (\<lambda>v. product v = produto r) t))))"
proof (intro conjI impI)
  assume "t = []"
  then show "analise_por_produto t insights = Inl IndexError"
    by (simp add: analise_por_produto_vazia)
next
  assume ne: "t \<noteq> []"
  define rows where "rows = sort_values_desc faturamento_total
                  (map agg_produto (groupby (\<lambda>v. Some (product v)) t))"
  obtain ins where r: "analise_por_produto t insights = Inr (rows, ins)"
    using analise_por_produto_Inr [OF ne] unfolding rows_def by blast
  have d: "distinct (map produto rows)"
    unfolding rows_def distinct_sort_values_desc chaves_produto by simp
  have "set (map produto rows) =
        set (map produto (map agg_produto (groupby (\<lambda>v. Some (product v)) t)))"
    unfolding rows_def by (simp only: set_map set_sort_values_desc)
  also have "\<dots> = product ` set t"
    unfolding chaves_produto by simp
  finally have s: "set (map produto rows) = product ` set t" .
  have n: "num_vendas r = length (filter (\<lambda>v. product v = produto r) t)" if "r \<in> set rows" for r
  proof -
    from that have "r \<in> set (map agg_produto (groupby (\<lambda>v. Some (product v)) t))"
      unfolding rows_def by simp
    then obtain k where "r = agg_produto (k, filter (\<lambda>v. product v = k) t)"
      unfolding linhas_produto by blast
    then show ?thesis by simp
  qed
  show "\<exists>rows ins. analise_por_produto t insights = Inr (rows, ins) \<and>
        distinct (map produto rows) \<and>
        set (map produto rows) = product ` set t \<and>
        (\<forall>r \<in> set rows. num_vendas r = length (filter (\<lambda>v. product v = produto r) t))"
    using r d s n by blast
qed

theorem aggregation_fails_only_on_empty_witness:
  "preparar_dados uniform_fixo [] = [] \<and>
   analise_por_produto (preparar_dados uniform_fixo []) [] = Inl IndexError \<and>
   preparar_dados uniform_fixo df_exemplo \<noteq> [] \<and>
   (\<exists>rows ins. analise_por_produto (preparar_dados uniform_fixo df_exemplo) [] = Inr (rows, ins) \<and>
      distinct (map produto rows) \<and>
      set (map produto rows) = product ` set (preparar_dados uniform_fixo df_exemplo))"
proof -
  have e: "preparar_dados uniform_fixo [] = []" by code_simp
  have ne: "preparar_dados uniform_fixo df_exemplo \<noteq> []" by code_simp
  have "analise_por_produto (preparar_dados uniform_fixo []) [] = Inl IndexError"
    using aggregation_fails_only_on_empty [of "preparar_dados uniform_fixo []" "[]"] e by simp
  moreover have "\<exists>rows ins.
      analise_por_produto (preparar_dados uniform_fixo df_exemplo) [] = Inr (rows, ins) \<and>
      distinct (map produto rows) \<and>
      set (map produto rows) = product ` set (preparar_dados uniform_fixo df_exemplo)"
    using aggregation_fails_only_on_empty [of "preparar_dados uniform_fixo df_exemplo" "[]"] ne
    by auto
  ultimately show ?thesis using e ne by simp
qed

section \<open>Outlier detection\<close>

text \<open>
  C9. The outlier set is the table filtered by the Tukey fences: a row is in it exactly when
  its revenue is strictly below \<open>Q1 - 1.5 * IQR\<close> or strictly above \<open>Q3 + 1.5 * IQR\<close>, with
  \<open>Q1\<close> and \<open>Q3\<close> the quartiles of the revenue column of the whole table, taken from its
  order statistics, and \<open>IQR = Q3 - Q1\<close>. When all rows have the same revenue the outlier
  set is empty. In the table with revenues 10, 10, 10, 10, 1000 both fences are 10 and the
  sale of 1000 is the one outlier.
\<close>

theorem outliers_tukey_fence:
  "outliers t = filter (\<lambda>v. revenue v < cerca_inferior t \<or> cerca_superior t < revenue v) t \<and>
   (v \<in> set (outliers t) \<longleftrightarrow>
      v \<in> set t \<and> (revenue v < cerca_inferior t \<or> cerca_superior t < revenue v)) \<and>
   ((\<forall>v \<in> set t. revenue v = c) \<longrightarrow> outliers t = [])"
proof (intro conjI impI)
  show eq: "outliers t =
      filter (\<lambda>v. revenue v < cerca_inferior t \<or> cerca_superior t < revenue v) t"
    by (rule outliers_por_quartis)
  show "v \<in> set (outliers t) \<longleftrightarrow>
      v \<in> set t \<and> (revenue v < cerca_inferior t \<or> cerca_superior t < revenue v)"
    unfolding eq by simp
next
  assume eq: "\<forall>v \<in> set t. revenue v = c"
  show "outliers t = []"
  proof (cases "t = []")
    case True
    then show ?thesis by (simp add: outliers_def quantile_def)
  next
    case False
    then have ne: "map revenue t \<noteq> []" by simp
    have all: "\<forall>x \<in> set (map revenue t). x = c" using eq by auto
    have q1: "quantile (map revenue t) (1 / 4) = Some c"
      by (rule quantile_constante [OF ne all]) simp_all
    have q3: "quantile (map revenue t) (3 / 4) = Some c"
      by (rule quantile_constante [OF ne all]) simp_all
    show ?thesis
      using eq by (simp add: outliers_def q1 q3 filter_empty_conv)
  qed
qed

theorem outliers_tukey_fence_witness:
  "map revenue (preparar_dados uniform_fixo df_um_atipico) = [10, 10, 10, 10, 1000] \<and>
   cerca_inferior (preparar_dados uniform_fixo df_um_atipico) = 10 \<and>
   cerca_superior (preparar_dados uniform_fixo df_um_atipico) = 10 \<and>
   map revenue (outliers (preparar_dados uniform_fixo df_um_atipico)) = [1000] \<and>
   identificar_padroes (preparar_dados uniform_fixo df_um_atipico) [] = [Vendas_atipicas 1] \<and>
   map revenue (preparar_dados uniform_fixo df_iguais) = [100, 100, 100] \<and>
   outliers (preparar_dados uniform_fixo df_iguais) = [] \<and>
   identificar_padroes (preparar_dados uniform_fixo df_iguais) [] = []"
proof -
  define T where "T = preparar_dados uniform_fixo df_um_atipico"
  define U where "U = preparar_dados uniform_fixo df_iguais"
  have rT: "map revenue T = [10, 10, 10, 10, 1000]"
    unfolding T_def by code_simp
  have ci: "cerca_inferior T = 10" and cs: "cerca_superior T = 10"
    unfolding T_def by code_simp+
  have fora: "map revenue
      (filter (\<lambda>v. revenue v < cerca_inferior T \<or> cerca_superior T < revenue v) T) = [1000]"
    unfolding T_def by code_simp
  have "outliers T = filter (\<lambda>v. revenue v < cerca_inferior T \<or> cerca_superior T < revenue v) T"
    using outliers_tukey_fence [of T] by blast
  then have oT: "map revenue (outliers T) = [1000]"
    using fora by simp
  then have "length (outliers T) = 1"
    by (metis length_map length_Cons list.size(3) One_nat_def)
  then have iT: "identificar_padroes T [] = [Vendas_atipicas 1]"
    by (simp add: identificar_padroes_def)
  have rU: "map revenue U = [100, 100, 100]"
    unfolding U_def by code_simp
  have "\<forall>v \<in> set U. revenue v = 100"
  proof
    fix v assume "v \<in> set U"
    then have "revenue v \<in> set (map revenue U)" by simp
    then show "revenue v = 100" unfolding rU by simp
  qed
  with outliers_tukey_fence [of U _ 100] have oU: "outliers U = []" by blast
  then have iU: "identificar_padroes U [] = []"
    by (simp add: identificar_padroes_def)
  show ?thesis
    using rT ci cs oT iT rU oU iU unfolding T_def U_def by simp
qed

end
